theory Spec2Isabelle
  imports Main
begin

section \<open>The update client of orbit: \<^verbatim>\<open>pkg/update/update.go\<close>\<close>

text \<open>
  The Go package manages executables described by TUF metadata: \<^verbatim>\<open>Get\<close> decides whether
  the cached artifact is current, \<^verbatim>\<open>Download\<close> stages, smoke-tests and publishes a new one.
  All of it is I/O, so the embedding threads an explicit \<open>world\<close> (the files on disk and a
  log of the calls made to the collaborators) through every operation, and returns Go's
  \<^verbatim>\<open>error\<close> results as values.
\<close>

subsection \<open>Errors\<close>

text \<open>
  \<^verbatim>\<open>errors.New\<close>/\<^verbatim>\<open>errors.Errorf\<close> build \<open>Errorf\<close>, \<^verbatim>\<open>errors.Wrap\<close>/\<^verbatim>\<open>Wrapf\<close>
  build \<open>Wrap\<close>. \<open>ErrLatestSnapshot\<close> is go-tuf's \<^verbatim>\<open>client.ErrLatestSnapshot{Version}\<close>,
  \<open>ErrNotExist\<close> is \<^verbatim>\<open>os.ErrNotExist\<close>. Every other failure of the operating system or of
  a collaborator is an \<open>Errorf\<close> with some message.
\<close>

datatype error =
    ErrLatestSnapshot int
  | ErrNotExist
  | Errorf string
  | Wrap error string

text \<open>\<^verbatim>\<open>errors.Cause\<close>: the innermost error under the wrappers.\<close>

fun Cause :: "error \<Rightarrow> error" where
  "Cause (Wrap e m) = Cause e"
| "Cause (ErrLatestSnapshot v) = ErrLatestSnapshot v"
| "Cause ErrNotExist = ErrNotExist"
| "Cause (Errorf m) = Errorf m"

text \<open>\<^verbatim>\<open>client.IsLatestSnapshot\<close>: a type assertion on the error itself.\<close>

fun IsLatestSnapshot :: "error \<Rightarrow> bool" where
  "IsLatestSnapshot (ErrLatestSnapshot v) = True"
| "IsLatestSnapshot ErrNotExist = False"
| "IsLatestSnapshot (Errorf m) = False"
| "IsLatestSnapshot (Wrap e m) = False"

text \<open>\<^verbatim>\<open>errors.Is(err, os.ErrNotExist)\<close>: looks through the wrappers.\<close>

definition IsNotExist :: "error \<Rightarrow> bool" where
  "IsNotExist err = (Cause err = ErrNotExist)"

subsection \<open>Paths: Go's \<^verbatim>\<open>path\<close> and \<^verbatim>\<open>path/filepath\<close>\<close>

text \<open>
  \<^verbatim>\<open>path.Join\<close> always works on slashes; \<^verbatim>\<open>filepath.Join\<close>, \<^verbatim>\<open>filepath.Base\<close> and
  \<^verbatim>\<open>filepath.Dir\<close> work on the separator of the running operating system, and on Windows
  they set the volume name of a path aside. Both packages clean a path with the same
  algorithm (\<^verbatim>\<open>Clean\<close>), so it is written once over the predicate that recognises a
  separator and the character that is written for one. \<^verbatim>\<open>Clean\<close> is modelled on path
  elements: the maximal runs of characters that are not separators. Empty elements and
  \<^verbatim>\<open>.\<close> disappear, \<^verbatim>\<open>..\<close> removes the element before it (or stays, at the front of a
  relative path; or disappears, at the root).
\<close>

text \<open>\<^verbatim>\<open>strings.Join\<close>\<close>

fun joinWith :: "string \<Rightarrow> string list \<Rightarrow> string" where
  "joinWith s [] = []"
| "joinWith s [x] = x"
| "joinWith s (x # y # ys) = x @ s @ joinWith s (y # ys)"

text \<open>The elements of a path; \<open>cur\<close> is the element being read.\<close>

fun elements :: "(char \<Rightarrow> bool) \<Rightarrow> string \<Rightarrow> string \<Rightarrow> string list" where
  "elements isSep cur [] = (if cur = [] then [] else [cur])"
| "elements isSep cur (c # cs) =
     (if isSep c then (if cur = [] then [] else [cur]) @ elements isSep [] cs
      else elements isSep (cur @ [c]) cs)"

text \<open>One element meets the elements kept so far.\<close>

definition cleanStep :: "bool \<Rightarrow> string list \<Rightarrow> string \<Rightarrow> string list" where
  "cleanStep rooted kept el =
     (if el = ''.'' then kept
      else if el = ''..'' then
        (if kept \<noteq> [] \<and> last kept \<noteq> ''..'' then butlast kept
         else if rooted then kept
         else kept @ [''..''])
      else kept @ [el])"

definition Clean :: "(char \<Rightarrow> bool) \<Rightarrow> char \<Rightarrow> string \<Rightarrow> string" where
  "Clean isSep sep p =
     (case p of
        [] \<Rightarrow> ''.''
      | c # cs \<Rightarrow>
          (let rooted = isSep c;
               kept = foldl (cleanStep rooted) [] (elements isSep [] p)
           in if rooted then sep # joinWith [sep] kept
              else if kept = [] then ''.''
              else joinWith [sep] kept))"

text \<open>
  \<^verbatim>\<open>Join\<close>: the elements from the first non-empty one on, joined by the separator and
  cleaned; the empty string when every element is empty.
\<close>

definition Join :: "(char \<Rightarrow> bool) \<Rightarrow> char \<Rightarrow> string list \<Rightarrow> string" where
  "Join isSep sep elem =
     (case dropWhile (\<lambda>el. el = []) elem of
        [] \<Rightarrow> []
      | el # els \<Rightarrow> Clean isSep sep (joinWith [sep] (el # els)))"

definition path_Join :: "string list \<Rightarrow> string" where
  "path_Join elem = Join (\<lambda>c. c = CHR ''/'') (CHR ''/'') elem"

text \<open>
  \<^verbatim>\<open>os.PathSeparator\<close> and \<^verbatim>\<open>os.IsPathSeparator\<close>, by the operating system the program
  runs on (\<^verbatim>\<open>runtime.GOOS\<close>): Windows writes a backslash and reads both.
\<close>

definition Separator :: "string \<Rightarrow> char" where
  "Separator goos = (if goos = ''windows'' then CHR 0x5C else CHR ''/'')"

definition IsPathSeparator :: "string \<Rightarrow> char \<Rightarrow> bool" where
  "IsPathSeparator goos c = (c = CHR ''/'' \<or> (goos = ''windows'' \<and> c = CHR 0x5C))"

text \<open>
  \<^verbatim>\<open>volumeNameLen\<close>: the length of the volume name a path starts with. There is none off
  Windows. On Windows a drive letter and a colon (\<^verbatim>\<open>C:\<close>) are a volume name of length 2.
  The other volume names of Windows, the UNC prefixes (two separators, a server and a
  share), are not modelled: a path that starts with one is read as a rooted path.
\<close>

definition volumeNameLen :: "string \<Rightarrow> string \<Rightarrow> nat" where
  "volumeNameLen goos p =
     (if goos = ''windows'' then
        (case p of
           c # d # cs \<Rightarrow>
             if d = CHR '':'' \<and>
                c \<in> set (''abcdefghijklmnopqrstuvwxyz'' @ ''ABCDEFGHIJKLMNOPQRSTUVWXYZ'')
             then 2 else 0
         | _ \<Rightarrow> 0)
      else 0)"

text \<open>
  \<^verbatim>\<open>filepath.Clean\<close>: the volume name stays as it is and what follows it is cleaned; a
  path that is only a volume name gets a dot.
\<close>

definition filepath_Clean :: "string \<Rightarrow> string \<Rightarrow> string" where
  "filepath_Clean goos p =
     (let n = volumeNameLen goos p
      in if drop n p = [] then p @ ''.''
         else take n p @ Clean (IsPathSeparator goos) (Separator goos) (drop n p))"

text \<open>
  \<^verbatim>\<open>filepath.Join\<close>: as \<^verbatim>\<open>Join\<close> above, but on Windows a first non-empty element of
  two characters that ends with a colon (a drive without a separator after it) is not
  followed by a separator: the path stays relative to the current directory of the drive.
  Go's releases do not agree on paths that have a colon in another place (an element that
  ends with a colon later in the join, a cleaned relative path whose first element looks
  like a drive); the model follows the older ones, where only the first element is read
  as a drive.
\<close>

definition filepath_Join :: "string \<Rightarrow> string list \<Rightarrow> string" where
  "filepath_Join goos elem =
     (case dropWhile (\<lambda>el. el = []) elem of
        [] \<Rightarrow> []
      | el # els \<Rightarrow>
          if goos = ''windows'' \<and> length el = 2 \<and> el ! 1 = CHR '':''
          then filepath_Clean goos
                 (el @ joinWith [Separator goos] (dropWhile (\<lambda>el. el = []) els))
          else filepath_Clean goos (joinWith [Separator goos] (el # els)))"

text \<open>
  \<^verbatim>\<open>filepath.Base\<close>: the last element, after the trailing separators and then the
  volume name are dropped; the separator when nothing is left.
\<close>

definition filepath_Base :: "string \<Rightarrow> string \<Rightarrow> string" where
  "filepath_Base goos p =
     (if p = [] then ''.''
      else let q = rev (dropWhile (IsPathSeparator goos) (rev p));
               r = drop (volumeNameLen goos q) q
           in if r = [] then [Separator goos]
              else rev (takeWhile (\<lambda>c. \<not> IsPathSeparator goos c) (rev r)))"

text \<open>
  \<^verbatim>\<open>filepath.Dir\<close>: the volume name, then everything after it up to the last separator,
  cleaned.
\<close>

definition filepath_Dir :: "string \<Rightarrow> string \<Rightarrow> string" where
  "filepath_Dir goos p =
     (let n = volumeNameLen goos p;
          d = rev (dropWhile (\<lambda>c. \<not> IsPathSeparator goos c) (rev (drop n p)))
      in take n p @ filepath_Clean goos d)"

text \<open>
  A plain name: a path element that is not empty, not \<^verbatim>\<open>.\<close> or \<^verbatim>\<open>..\<close>, and has no
  character that some operating system reads as a separator.
\<close>

definition plainName :: "string \<Rightarrow> bool" where
  "plainName n =
     (n \<noteq> [] \<and> n \<noteq> ''.'' \<and> n \<noteq> ''..'' \<and> CHR ''/'' \<notin> set n \<and> CHR 0x5C \<notin> set n)"

subsection \<open>The world: files and the calls made to the collaborators\<close>

datatype node = Regular (content: string) (perm: nat) | Directory

text \<open>
  \<open>files\<close> maps a path to what is there. \<open>lookups\<close>, \<open>fetches\<close> and \<open>execs\<close> log the
  repository paths resolved with \<^verbatim>\<open>client.Target\<close>, the repository paths fetched with
  \<^verbatim>\<open>client.Download\<close>, and the files executed (the path, and the bytes the file had then),
  in the order of the calls.
\<close>

record world =
  files :: "string \<rightharpoonup> node"
  lookups :: "string list"
  fetches :: "string list"
  execs :: "(string \<times> string) list"

text \<open>The bytes of the regular file at a path, if there is one.\<close>

definition fileAt :: "world \<Rightarrow> string \<Rightarrow> string option" where
  "fileAt w p = (case files w p of Some (Regular c m) \<Rightarrow> Some c | _ \<Rightarrow> None)"

subsection \<open>The environment of one call\<close>

text \<open>
  Each call of the operating system whose error the code inspects is a \<open>site\<close>; the
  environment says which of them fail for a reason of its own (permissions, a full disk, a
  file in use), on top of the failures that follow from the files themselves.
\<close>

datatype site =
    AtStat | AtMkdirStaging | AtChmodStaging | AtOpen | AtChmodTmp
  | AtMkdirDest | AtChmodDest | AtClose | AtRenameOld | AtRenameNew

text \<open>
  The constants of \<^verbatim>\<open>pkg/constant\<close> are not under \<^verbatim>\<open>src/\<close> and are parameters here:
  \<open>PlatformName\<close> (the platform the program runs on), \<open>ExecutableExtension\<close>,
  \<open>DefaultDirMode\<close> and \<open>DefaultExecutableMode\<close>. \<open>hashOf alg bytes\<close> is the digest of
  \<open>bytes\<close> under the algorithm \<open>alg\<close>; \<open>runVersion bytes\<close> is what executing a file with
  these bytes and the argument \<^verbatim>\<open>--version\<close> gives: its combined output, and an error
  when it cannot be executed or exits non-zero.
\<close>

record env =
  PlatformName :: string
  ExecutableExtension :: "string \<Rightarrow> string"
  DefaultDirMode :: nat
  DefaultExecutableMode :: nat
  fails :: "site \<Rightarrow> bool"
  hashOf :: "string \<Rightarrow> string \<Rightarrow> string"
  runVersion :: "string \<Rightarrow> string \<times> error option"

subsection \<open>The operating system\<close>

text \<open>\<^verbatim>\<open>os.Stat\<close>\<close>

definition Stat :: "env \<Rightarrow> string \<Rightarrow> world \<Rightarrow> error + node" where
  "Stat e p w =
     (if fails e AtStat then Inl (Errorf ''stat'')
      else case files w p of None \<Rightarrow> Inl ErrNotExist | Some n \<Rightarrow> Inr n)"

text \<open>\<^verbatim>\<open>FileMode.IsRegular\<close>\<close>

fun IsRegular :: "node \<Rightarrow> bool" where
  "IsRegular (Regular c m) = True"
| "IsRegular Directory = False"

text \<open>
  \<^verbatim>\<open>os.MkdirAll\<close>: nothing to do for a directory, an error for a regular file, a new
  directory otherwise. The directories above \<open>p\<close> are not tracked.
\<close>

definition MkdirAll :: "env \<Rightarrow> site \<Rightarrow> string \<Rightarrow> nat \<Rightarrow> world \<Rightarrow> error + world" where
  "MkdirAll e s p mode w =
     (if fails e s then Inl (Errorf ''mkdir'')
      else case files w p of
        Some (Regular c m) \<Rightarrow> Inl (Errorf ''not a directory'')
      | _ \<Rightarrow> Inr (w\<lparr>files := (files w)(p \<mapsto> Directory)\<rparr>))"

text \<open>
  \<^verbatim>\<open>os.OpenFile(name, os.O_CREATE|os.O_WRONLY, mode)\<close>: a missing file is created empty
  with \<open>mode\<close>; an existing regular file is opened as it is, with its bytes and its mode
  (the flags do not include \<^verbatim>\<open>os.O_TRUNC\<close>); a directory cannot be opened for writing.
\<close>

definition OpenFile :: "env \<Rightarrow> site \<Rightarrow> string \<Rightarrow> nat \<Rightarrow> world \<Rightarrow> error + world" where
  "OpenFile e s p mode w =
     (if fails e s then Inl (Errorf ''open'')
      else case files w p of
        None \<Rightarrow> Inr (w\<lparr>files := (files w)(p \<mapsto> Regular [] mode)\<rparr>)
      | Some (Regular c m) \<Rightarrow> Inr w
      | Some Directory \<Rightarrow> Inl (Errorf ''is a directory''))"

text \<open>
  Writing \<open>bytes\<close> through a file opened as above, from offset 0: they replace the first
  \<open>length bytes\<close> bytes, and what the file held beyond them stays.
\<close>

definition writeFile :: "string \<Rightarrow> string \<Rightarrow> world \<Rightarrow> world" where
  "writeFile p bytes w =
     (case files w p of
        Some (Regular c m) \<Rightarrow>
          w\<lparr>files := (files w)(p \<mapsto> Regular (bytes @ drop (length bytes) c) m)\<rparr>
      | _ \<Rightarrow> w)"

text \<open>
  \<^verbatim>\<open>os.Rename\<close>: a missing source is \<^verbatim>\<open>os.ErrNotExist\<close>; a path renamed to itself stays;
  a directory at the destination is never replaced, nor a regular file by a directory;
  otherwise the source replaces the destination.
\<close>

definition Rename :: "env \<Rightarrow> site \<Rightarrow> string \<Rightarrow> string \<Rightarrow> world \<Rightarrow> error + world" where
  "Rename e s old new w =
     (if fails e s then Inl (Errorf ''rename'')
      else case files w old of
        None \<Rightarrow> Inl ErrNotExist
      | Some n \<Rightarrow>
          if old = new then Inr w
          else if files w new = Some Directory then Inl (Errorf ''is a directory'')
          else if n = Directory \<and> files w new \<noteq> None then Inl (Errorf ''not a directory'')
          else Inr (w\<lparr>files := (files w)(new \<mapsto> n, old := None)\<rparr>))"

text \<open>
  \<^verbatim>\<open>os.Remove\<close> as the deferred cleanup calls it: its error is dropped, and here it
  always removes what is at the path.
\<close>

definition Remove :: "string \<Rightarrow> world \<Rightarrow> world" where
  "Remove p w = w\<lparr>files := (files w)(p := None)\<rparr>"

text \<open>
  Modelled from the spec: \<^verbatim>\<open>platform.ChmodExecutableDirectory\<close> and
  \<^verbatim>\<open>platform.ChmodExecutable\<close> are not under \<^verbatim>\<open>src/\<close>. The spec calls them the platform's
  permission adjustment of a directory and of the staging file, a no-op where the creation
  mode suffices: they can fail, a missing path is an error, and the file gets the
  executable mode.
\<close>

definition ChmodExecutableDirectory :: "env \<Rightarrow> site \<Rightarrow> string \<Rightarrow> world \<Rightarrow> error + world" where
  "ChmodExecutableDirectory e s p w =
     (if fails e s then Inl (Errorf ''chmod executable directory'')
      else case files w p of None \<Rightarrow> Inl ErrNotExist | Some n \<Rightarrow> Inr w)"

definition ChmodExecutable :: "env \<Rightarrow> site \<Rightarrow> string \<Rightarrow> world \<Rightarrow> error + world" where
  "ChmodExecutable e s p w =
     (if fails e s then Inl (Errorf ''chmod executable'')
      else case files w p of
        None \<Rightarrow> Inl ErrNotExist
      | Some (Regular c m) \<Rightarrow>
          Inr (w\<lparr>files := (files w)(p \<mapsto> Regular c (DefaultExecutableMode e))\<rparr>)
      | Some Directory \<Rightarrow> Inr w)"

text \<open>
  \<^verbatim>\<open>exec.Command(name, "--version").CombinedOutput()\<close>: the call is logged; what it
  gives depends on the bytes of the file. The executed program changes no file.
\<close>

definition execVersion :: "env \<Rightarrow> string \<Rightarrow> world \<Rightarrow> world \<times> string \<times> error option" where
  "execVersion e name w =
     (case files w name of
        Some (Regular c m) \<Rightarrow> (w\<lparr>execs := execs w @ [(name, c)]\<rparr>, runVersion e c)
      | _ \<Rightarrow> (w\<lparr>execs := execs w @ [(name, [])]\<rparr>, [], Some (Errorf ''exec'')))"

subsection \<open>The TUF client\<close>

text \<open>\<^verbatim>\<open>data.TargetFileMeta\<close>: the length and the digests, by algorithm.\<close>

record target_meta =
  Length :: int
  Hashes :: "(string \<times> string) list"

text \<open>
  go-tuf's client is a collaborator, given by what its three calls return:
  \<open>client_Update\<close> is the error of \<^verbatim>\<open>client.Update()\<close>, if any; \<open>client_Target\<close> is
  \<^verbatim>\<open>client.Target(path)\<close>; \<open>client_Download path\<close> is the bytes \<^verbatim>\<open>client.Download\<close>
  writes to its destination and its error, if any.
\<close>

record tuf_client =
  client_Update :: "error option"
  client_Target :: "string \<Rightarrow> error + target_meta"
  client_Download :: "string \<Rightarrow> string \<times> error option"

text \<open>
  Modelled from the spec: \<^verbatim>\<open>u.client.Download(repoPath, &fileDestination{tmp})\<close>; the
  type \<^verbatim>\<open>fileDestination\<close> is not under \<^verbatim>\<open>src/\<close>. The collaborator streams the target into
  the open staging file and returns success only when the bytes it streamed have the size
  and the digests of the metadata. The call is logged as a fetch.
\<close>

definition clientDownload :: "tuf_client \<Rightarrow> string \<Rightarrow> string \<Rightarrow> world \<Rightarrow> world \<times> error option" where
  "clientDownload c repoPath tmpName w =
     (case client_Download c repoPath of
        (bytes, r) \<Rightarrow> (writeFile tmpName bytes (w\<lparr>fetches := fetches w @ [repoPath]\<rparr>), r))"

subsection \<open>The updater\<close>

text \<open>The fields of \<^verbatim>\<open>Options\<close>; \<^verbatim>\<open>LocalStore\<close> belongs to the TUF client.\<close>

record options =
  RootDirectory :: string
  ServerURL :: string
  InsecureTransport :: bool
  RootKeys :: string
  Platform :: string
  OrbitChannel :: string
  OsquerydChannel :: string

record updater =
  opt :: options
  client :: tuf_client

definition binDir :: string where
  "binDir = ''bin''"

definition stagingDir :: string where
  "stagingDir = ''staging''"

definition UpdateMetadata :: "updater \<Rightarrow> error option" where
  "UpdateMetadata u =
     (case client_Update (client u) of
        Some err \<Rightarrow>
          if \<not> IsLatestSnapshot (Cause err) then Some (Wrap err ''update metadata'')
          else None
      | None \<Rightarrow> None)"

definition RepoPath :: "updater \<Rightarrow> env \<Rightarrow> string \<Rightarrow> string \<Rightarrow> string" where
  "RepoPath u e target channel =
     path_Join [target, Platform (opt u), channel,
                target @ ExecutableExtension e (Platform (opt u))]"

definition pathFromRoot :: "updater \<Rightarrow> env \<Rightarrow> string list \<Rightarrow> string" where
  "pathFromRoot u e parts = filepath_Join (PlatformName e) (RootDirectory (opt u) # parts)"

definition LocalPath :: "updater \<Rightarrow> env \<Rightarrow> string \<Rightarrow> string \<Rightarrow> string" where
  "LocalPath u e target channel =
     pathFromRoot u e
       [filepath_Join (PlatformName e)
          [binDir, target, Platform (opt u), channel,
           target @ ExecutableExtension e (Platform (opt u))]]"

definition Lookup ::
  "updater \<Rightarrow> env \<Rightarrow> string \<Rightarrow> string \<Rightarrow> world \<Rightarrow> world \<times> (error + target_meta)" where
  "Lookup u e target channel w =
     (let repoPath = RepoPath u e target channel;
          w' = w\<lparr>lookups := lookups w @ [repoPath]\<rparr>
      in case client_Target (client u) repoPath of
           Inl err \<Rightarrow> (w', Inl (Wrap err (''lookup '' @ target @ ''@'' @ channel)))
         | Inr t \<Rightarrow> (w', Inr t))"

text \<open>
  Modelled from the spec: \<^verbatim>\<open>CheckFileHash\<close> is not under \<^verbatim>\<open>src/\<close>. The spec: compute the
  local file's hash using each algorithm present in the metadata and compare; the file is
  accepted when every algorithm matches.
\<close>

definition CheckFileHash :: "env \<Rightarrow> target_meta \<Rightarrow> string \<Rightarrow> world \<Rightarrow> error option" where
  "CheckFileHash e meta localPath w =
     (case files w localPath of
        Some (Regular c m) \<Rightarrow>
          if list_all (\<lambda>(alg, h). hashOf e alg c = h) (Hashes meta) then None
          else Some (Errorf ''hash mismatch'')
      | _ \<Rightarrow> Some (Errorf ''read file''))"

text \<open>The staging directory and the staging file of \<^verbatim>\<open>Download\<close>.\<close>

definition stagingPath :: "updater \<Rightarrow> env \<Rightarrow> string" where
  "stagingPath u e = filepath_Join (PlatformName e) [RootDirectory (opt u), stagingDir]"

definition tmpPath :: "updater \<Rightarrow> env \<Rightarrow> string \<Rightarrow> string" where
  "tmpPath u e localPath =
     filepath_Join (PlatformName e) [stagingPath u e, filepath_Base (PlatformName e) localPath]"

text \<open>
  \<^verbatim>\<open>Download\<close> from the line after the \<^verbatim>\<open>defer\<close> to its end: every \<^verbatim>\<open>return\<close> of
  the source is a branch that gives the world reached and the error.
\<close>

definition DownloadBody ::
  "updater \<Rightarrow> env \<Rightarrow> string \<Rightarrow> string \<Rightarrow> string \<Rightarrow> world \<Rightarrow> world \<times> error option" where
  "DownloadBody u e repoPath localPath tmpName w0 =
     (case ChmodExecutable e AtChmodTmp tmpName w0 of
        Inl err \<Rightarrow> (w0, Some (Wrap err ''chmod download''))
      | Inr w1 \<Rightarrow>
     (case MkdirAll e AtMkdirDest (filepath_Dir (PlatformName e) localPath) (DefaultDirMode e) w1 of
        Inl err \<Rightarrow> (w1, Some (Wrap err ''initialize download dir''))
      | Inr w2 \<Rightarrow>
     (case ChmodExecutableDirectory e AtChmodDest (filepath_Dir (PlatformName e) localPath) w2 of
        Inl err \<Rightarrow> (w2, Some err)
      | Inr w3 \<Rightarrow>
     (case clientDownload (client u) repoPath tmpName w3 of
        (w4, Some err) \<Rightarrow> (w4, Some (Wrap err (''download target '' @ repoPath)))
      | (w4, None) \<Rightarrow>
     if fails e AtClose then (w4, Some (Wrap (Errorf ''close'') ''close tmp file''))
     else
     (case (if Platform (opt u) = PlatformName e then execVersion e tmpName w4
            else (w4, [], None)) of
        (w5, out, Some err) \<Rightarrow> (w5, Some (Wrap err (''exec new version: '' @ out)))
      | (w5, out, None) \<Rightarrow>
     (case (if PlatformName e = ''windows'' then
              (case Rename e AtRenameOld localPath (localPath @ ''.old'') w5 of
                 Inl err \<Rightarrow> if \<not> IsNotExist err then Inl (Wrap err ''rename old'') else Inr w5
               | Inr w \<Rightarrow> Inr w)
            else Inr w5) of
        Inl err \<Rightarrow> (w5, Some err)
      | Inr w6 \<Rightarrow>
     (case Rename e AtRenameNew tmpName localPath w6 of
        Inl err \<Rightarrow> (w6, Some (Wrap err ''move download''))
      | Inr w7 \<Rightarrow> (w7, None))))))))"

text \<open>
  \<^verbatim>\<open>Download\<close>: the three steps before the \<^verbatim>\<open>defer\<close>, then the body, then the deferred
  function (\<^verbatim>\<open>tmp.Close(); os.Remove(tmp.Name())\<close>) on whatever world the body reached.
\<close>

definition Download ::
  "updater \<Rightarrow> env \<Rightarrow> string \<Rightarrow> string \<Rightarrow> world \<Rightarrow> world \<times> error option" where
  "Download u e repoPath localPath w0 =
     (let staging = filepath_Join (PlatformName e) [RootDirectory (opt u), stagingDir]
      in case MkdirAll e AtMkdirStaging staging (DefaultDirMode e) w0 of
           Inl err \<Rightarrow> (w0, Some (Wrap err ''initialize download dir''))
         | Inr w1 \<Rightarrow>
        (case ChmodExecutableDirectory e AtChmodStaging staging w1 of
           Inl err \<Rightarrow> (w1, Some err)
         | Inr w2 \<Rightarrow>
        (let tmpName =
               filepath_Join (PlatformName e) [staging, filepath_Base (PlatformName e) localPath]
         in case OpenFile e AtOpen tmpName (DefaultExecutableMode e) w2 of
              Inl err \<Rightarrow> (w2, Some (Wrap err ''open temp file for download''))
            | Inr w3 \<Rightarrow>
                (case DownloadBody u e repoPath localPath tmpName w3 of
                   (w4, r) \<Rightarrow> (Remove tmpName w4, r)))))"

text \<open>\<^verbatim>\<open>Get\<close> returns the pair of Go: the path and the error.\<close>

definition Get ::
  "updater \<Rightarrow> env \<Rightarrow> string \<Rightarrow> string \<Rightarrow> world \<Rightarrow> world \<times> string \<times> error option" where
  "Get u e target channel w0 =
     (if target = [] then (w0, [], Some (Errorf ''target is required''))
      else if channel = [] then (w0, [], Some (Errorf ''channel is required''))
      else
        (let localPath = LocalPath u e target channel;
             repoPath = RepoPath u e target channel
         in case Stat e localPath w0 of
              Inl err \<Rightarrow>
                (case Download u e repoPath localPath w0 of (w', r) \<Rightarrow> (w', localPath, r))
            | Inr st \<Rightarrow>
                if \<not> IsRegular st then
                  (w0, [], Some (Errorf (''expected '' @ localPath @ '' to be regular file'')))
                else
                  (case Lookup u e target channel w0 of
                     (w1, Inl err) \<Rightarrow> (w1, [], Some err)
                   | (w1, Inr meta) \<Rightarrow>
                       (case CheckFileHash e meta localPath w1 of
                          Some err \<Rightarrow>
                            (case Download u e repoPath localPath w1 of
                               (w', r) \<Rightarrow> (w', localPath, r))
                        | None \<Rightarrow> (w1, localPath, None)))))"

subsection \<open>A concrete installation\<close>

text \<open>
  An updater rooted at \<^verbatim>\<open>/opt/orbit\<close> for the platform \<^verbatim>\<open>linux\<close> and one rooted at
  \<^verbatim>\<open>C:/orbit\<close> for the platform \<^verbatim>\<open>windows\<close>, a TUF client that knows the targets
  \<^verbatim>\<open>orbit/linux/stable/orbit\<close> and \<^verbatim>\<open>orbit/windows/stable/orbit.exe\<close>, both with the bytes
  \<^verbatim>\<open>good\<close>, and environments for a
  Linux and a Windows host in which a file runs \<^verbatim>\<open>--version\<close> successfully exactly when
  its bytes start with \<^verbatim>\<open>good\<close>. The digest is a toy one: the algorithm's name before the
  bytes.
\<close>

definition exampleClient :: tuf_client where
  "exampleClient =
     \<lparr>client_Update = None,
      client_Target =
        (\<lambda>p. if p = ''orbit/linux/stable/orbit'' \<or> p = ''orbit/windows/stable/orbit.exe''
             then Inr \<lparr>Length = 4, Hashes = [(''sha256'', ''sha256:good'')]\<rparr>
             else Inl (Errorf ''unknown target'')),
      client_Download =
        (\<lambda>p. if p = ''orbit/linux/stable/orbit'' \<or> p = ''orbit/windows/stable/orbit.exe''
             then (''good'', None)
             else ([], Some (Errorf ''unknown target'')))\<rparr>"

definition exampleUpdater :: updater where
  "exampleUpdater =
     \<lparr>opt = \<lparr>RootDirectory = ''/opt/orbit'', ServerURL = ''https://tuf.fleetctl.com'',
              InsecureTransport = False, RootKeys = [], Platform = ''linux'',
              OrbitChannel = ''stable'', OsquerydChannel = ''stable''\<rparr>,
      client = exampleClient\<rparr>"

definition windowsUpdater :: updater where
  "windowsUpdater =
     exampleUpdater\<lparr>opt := (opt exampleUpdater)\<lparr>RootDirectory := ''C:/orbit'',
                                                Platform := ''windows''\<rparr>\<rparr>"

text \<open>
  An updater whose target is consistently broken: the TUF client delivers the bytes
  \<^verbatim>\<open>bad!\<close>, and its metadata has their digest.
\<close>

definition brokenUpdater :: updater where
  "brokenUpdater =
     exampleUpdater\<lparr>client :=
       \<lparr>client_Update = None,
        client_Target = (\<lambda>p. Inr \<lparr>Length = 4, Hashes = [(''sha256'', ''sha256:bad!'')]\<rparr>),
        client_Download = (\<lambda>p. (''bad!'', None))\<rparr>\<rparr>"

definition linuxEnv :: env where
  "linuxEnv =
     \<lparr>PlatformName = ''linux'',
      ExecutableExtension = (\<lambda>p. if p = ''windows'' then ''.exe'' else []),
      DefaultDirMode = 493, DefaultExecutableMode = 493,
      fails = (\<lambda>s. False),
      hashOf = (\<lambda>alg bytes. alg @ '':'' @ bytes),
      runVersion = (\<lambda>bytes. if take 4 bytes = ''good'' then (''orbit 1.0'', None)
                             else (''exec format error'', Some (Errorf ''exit status 1'')))\<rparr>"

definition windowsEnv :: env where
  "windowsEnv = linuxEnv\<lparr>PlatformName := ''windows''\<rparr>"

definition emptyWorld :: world where
  "emptyWorld = \<lparr>files = Map.empty, lookups = [], fetches = [], execs = []\<rparr>"

text \<open>A world whose only file is a regular file with the given bytes at the given path.\<close>

definition oneFile :: "string \<Rightarrow> string \<Rightarrow> world" where
  "oneFile p bytes = emptyWorld\<lparr>files := [p \<mapsto> Regular bytes 493]\<rparr>"

text \<open>A world whose only entry is a directory at the given path.\<close>

definition oneDirectory :: "string \<Rightarrow> world" where
  "oneDirectory p = emptyWorld\<lparr>files := [p \<mapsto> Directory]\<rparr>"

text \<open>One more regular file in a world.\<close>

definition withFile :: "string \<Rightarrow> string \<Rightarrow> world \<Rightarrow> world" where
  "withFile p bytes w = w\<lparr>files := (files w)(p \<mapsto> Regular bytes 493)\<rparr>"

section \<open>Facts about the operations\<close>

lemma MkdirAll_Inr:
  "MkdirAll e s p m w = Inr w' \<Longrightarrow>
     (\<forall>q. fileAt w' q = fileAt w q) \<and> (\<forall>q. q \<noteq> p \<longrightarrow> files w' q = files w q) \<and>
     files w' p = Some Directory \<and>
     lookups w' = lookups w \<and> fetches w' = fetches w \<and> execs w' = execs w"
  by (auto simp: MkdirAll_def fileAt_def split: if_splits option.splits node.splits)

lemma ChmodExecutableDirectory_Inr:
  "ChmodExecutableDirectory e s p w = Inr w' \<Longrightarrow> w' = w"
  by (auto simp: ChmodExecutableDirectory_def split: if_splits option.splits)


lemma OpenFile_Inr:
  "OpenFile e s p m w = Inr w' \<Longrightarrow>
     (\<forall>q. q \<noteq> p \<longrightarrow> files w' q = files w q) \<and>
     (\<forall>q. q \<noteq> p \<longrightarrow> fileAt w' q = fileAt w q) \<and>
     (\<exists>c m'. files w' p = Some (Regular c m') \<and> (files w p = None \<longrightarrow> c = [])) \<and>
     files w p \<noteq> Some Directory \<and>
     lookups w' = lookups w \<and> fetches w' = fetches w \<and> execs w' = execs w"
  by (auto simp: OpenFile_def fileAt_def split: if_splits option.splits node.splits)

lemma ChmodExecutable_Inr:
  "ChmodExecutable e s p w = Inr w' \<Longrightarrow>
     (\<forall>q. fileAt w' q = fileAt w q) \<and> (\<forall>q. q \<noteq> p \<longrightarrow> files w' q = files w q) \<and>
     lookups w' = lookups w \<and> fetches w' = fetches w \<and> execs w' = execs w"
  by (auto simp: ChmodExecutable_def fileAt_def split: if_splits option.splits node.splits)

lemma clientDownload_eq:
  "clientDownload c rp tmp w = (w', r) \<Longrightarrow>
     (\<forall>q. q \<noteq> tmp \<longrightarrow> files w' q = files w q) \<and>
     (\<forall>q. q \<noteq> tmp \<longrightarrow> fileAt w' q = fileAt w q) \<and>
     lookups w' = lookups w \<and> fetches w' = fetches w @ [rp] \<and> execs w' = execs w"
  by (auto simp: clientDownload_def writeFile_def fileAt_def split: prod.splits option.splits node.splits if_splits)

lemma execVersion_eq:
  "execVersion e name w = (w', out, r) \<Longrightarrow>
     files w' = files w \<and> (\<forall>q. fileAt w' q = fileAt w q) \<and>
     lookups w' = lookups w \<and> fetches w' = fetches w \<and>
     (\<exists>c. execs w' = execs w @ [(name, c)] \<and> (r = None \<longrightarrow> snd (runVersion e c) = None))"
  by (auto simp: execVersion_def fileAt_def split: prod.splits option.splits node.splits)

lemma Rename_Inr:
  "Rename e s old new w = Inr w' \<Longrightarrow>
     (\<forall>q. q \<noteq> old \<and> q \<noteq> new \<longrightarrow> files w' q = files w q) \<and>
     (\<forall>q. q \<noteq> old \<and> q \<noteq> new \<longrightarrow> fileAt w' q = fileAt w q) \<and>
     files w' new = files w old \<and> fileAt w' new = fileAt w old \<and>
     (old \<noteq> new \<longrightarrow> files w' old = None \<and> fileAt w' old = None) \<and>
     lookups w' = lookups w \<and> fetches w' = fetches w \<and> execs w' = execs w"
  by (auto simp: Rename_def fileAt_def split: if_splits option.splits node.splits)

lemma Remove_simps:
  "files (Remove p w) p = None" "fileAt (Remove p w) p = None"
  "q \<noteq> p \<Longrightarrow> files (Remove p w) q = files w q" "q \<noteq> p \<Longrightarrow> fileAt (Remove p w) q = fileAt w q"
  "lookups (Remove p w) = lookups w" "fetches (Remove p w) = fetches w" "execs (Remove p w) = execs w"
  by (auto simp: Remove_def fileAt_def)


lemma DownloadBody_cases [consumes 1, case_names chmod mkdir chmodDir fetch close exec renameOld renameNew ok]:
  assumes "DownloadBody u e rp lp tmp w0 = (w', r)"
  obtains
    err where "ChmodExecutable e AtChmodTmp tmp w0 = Inl err" "w' = w0"
      "r = Some (Wrap err ''chmod download'')"
  | w1 err where "ChmodExecutable e AtChmodTmp tmp w0 = Inr w1"
      "MkdirAll e AtMkdirDest (filepath_Dir (PlatformName e) lp) (DefaultDirMode e) w1 = Inl err"
      "w' = w1" "r = Some (Wrap err ''initialize download dir'')"
  | w1 w2 err where "ChmodExecutable e AtChmodTmp tmp w0 = Inr w1"
      "MkdirAll e AtMkdirDest (filepath_Dir (PlatformName e) lp) (DefaultDirMode e) w1 = Inr w2"
      "ChmodExecutableDirectory e AtChmodDest (filepath_Dir (PlatformName e) lp) w2 = Inl err"
      "w' = w2" "r = Some err"
  | w1 w2 err where "ChmodExecutable e AtChmodTmp tmp w0 = Inr w1"
      "MkdirAll e AtMkdirDest (filepath_Dir (PlatformName e) lp) (DefaultDirMode e) w1 = Inr w2"
      "clientDownload (client u) rp tmp w2 = (w', Some err)"
      "r = Some (Wrap err (''download target '' @ rp))"
  | w1 w2 where "ChmodExecutable e AtChmodTmp tmp w0 = Inr w1"
      "MkdirAll e AtMkdirDest (filepath_Dir (PlatformName e) lp) (DefaultDirMode e) w1 = Inr w2"
      "clientDownload (client u) rp tmp w2 = (w', None)" "fails e AtClose"
      "r = Some (Wrap (Errorf ''close'') ''close tmp file'')"
  | w1 w2 w4 out err where "ChmodExecutable e AtChmodTmp tmp w0 = Inr w1"
      "MkdirAll e AtMkdirDest (filepath_Dir (PlatformName e) lp) (DefaultDirMode e) w1 = Inr w2"
      "clientDownload (client u) rp tmp w2 = (w4, None)" "\<not> fails e AtClose"
      "Platform (opt u) = PlatformName e" "execVersion e tmp w4 = (w', out, Some err)"
      "r = Some (Wrap err (''exec new version: '' @ out))"
  | w1 w2 w4 w5 err where "ChmodExecutable e AtChmodTmp tmp w0 = Inr w1"
      "MkdirAll e AtMkdirDest (filepath_Dir (PlatformName e) lp) (DefaultDirMode e) w1 = Inr w2"
      "clientDownload (client u) rp tmp w2 = (w4, None)" "\<not> fails e AtClose"
      "if Platform (opt u) = PlatformName e then (\<exists>out. execVersion e tmp w4 = (w5, out, None)) else w5 = w4"
      "PlatformName e = ''windows''" "Rename e AtRenameOld lp (lp @ ''.old'') w5 = Inl err"
      "\<not> IsNotExist err" "w' = w5" "r = Some (Wrap err ''rename old'')"
  | w1 w2 w4 w5 w6 err where "ChmodExecutable e AtChmodTmp tmp w0 = Inr w1"
      "MkdirAll e AtMkdirDest (filepath_Dir (PlatformName e) lp) (DefaultDirMode e) w1 = Inr w2"
      "clientDownload (client u) rp tmp w2 = (w4, None)" "\<not> fails e AtClose"
      "if Platform (opt u) = PlatformName e then (\<exists>out. execVersion e tmp w4 = (w5, out, None)) else w5 = w4"
      "if PlatformName e = ''windows''
       then (case Rename e AtRenameOld lp (lp @ ''.old'') w5 of
               Inl err \<Rightarrow> IsNotExist err \<and> w6 = w5 | Inr w \<Rightarrow> w6 = w)
       else w6 = w5"
      "Rename e AtRenameNew tmp lp w6 = Inl err" "w' = w6" "r = Some (Wrap err ''move download'')"
  | w1 w2 w4 w5 w6 where "ChmodExecutable e AtChmodTmp tmp w0 = Inr w1"
      "MkdirAll e AtMkdirDest (filepath_Dir (PlatformName e) lp) (DefaultDirMode e) w1 = Inr w2"
      "clientDownload (client u) rp tmp w2 = (w4, None)" "\<not> fails e AtClose"
      "if Platform (opt u) = PlatformName e then (\<exists>out. execVersion e tmp w4 = (w5, out, None)) else w5 = w4"
      "if PlatformName e = ''windows''
       then (case Rename e AtRenameOld lp (lp @ ''.old'') w5 of
               Inl err \<Rightarrow> IsNotExist err \<and> w6 = w5 | Inr w \<Rightarrow> w6 = w)
       else w6 = w5"
      "Rename e AtRenameNew tmp lp w6 = Inr w'" "r = None"
proof (cases "ChmodExecutable e AtChmodTmp tmp w0")
  case (Inl err)
  then have "DownloadBody u e rp lp tmp w0 = (w0, Some (Wrap err ''chmod download''))"
    by (simp add: DownloadBody_def)
  with assms have "w' = w0" "r = Some (Wrap err ''chmod download'')"
    by simp_all
  with Inl show thesis
    by (rule that(1))
next
  case c1: (Inr w1)
  let ?dir = "filepath_Dir (PlatformName e) lp"
  show thesis
  proof (cases "MkdirAll e AtMkdirDest ?dir (DefaultDirMode e) w1")
    case (Inl err)
    with c1 have "DownloadBody u e rp lp tmp w0 = (w1, Some (Wrap err ''initialize download dir''))"
      by (simp add: DownloadBody_def)
    with assms have "w' = w1" "r = Some (Wrap err ''initialize download dir'')"
      by simp_all
    with c1 Inl show thesis
      by (rule that(2))
  next
    case c2: (Inr w2)
    show thesis
    proof (cases "ChmodExecutableDirectory e AtChmodDest ?dir w2")
      case (Inl err)
      with c1 c2 have "DownloadBody u e rp lp tmp w0 = (w2, Some err)"
        by (simp add: DownloadBody_def)
      with assms have "w' = w2" "r = Some err"
        by simp_all
      with c1 c2 Inl show thesis
        by (rule that(3))
    next
      case (Inr w3)
      then have c3: "ChmodExecutableDirectory e AtChmodDest ?dir w2 = Inr w2"
        using ChmodExecutableDirectory_Inr by blast
      obtain w4 r4 where c4: "clientDownload (client u) rp tmp w2 = (w4, r4)"
        by (cases "clientDownload (client u) rp tmp w2")
      show thesis
      proof (cases r4)
        case (Some err)
        with c1 c2 c3 c4
        have "DownloadBody u e rp lp tmp w0 = (w4, Some (Wrap err (''download target '' @ rp)))"
          by (simp add: DownloadBody_def)
        with assms have "w' = w4" "r = Some (Wrap err (''download target '' @ rp))"
          by simp_all
        with c1 c2 c4 Some show thesis
          using that(4) by blast
      next
        case None
        note c4 = c4[unfolded None]
        show thesis
        proof (cases "fails e AtClose")
          case True
          with c1 c2 c3 c4
          have "DownloadBody u e rp lp tmp w0 = (w4, Some (Wrap (Errorf ''close'') ''close tmp file''))"
            by (simp add: DownloadBody_def)
          with assms have "w' = w4" "r = Some (Wrap (Errorf ''close'') ''close tmp file'')"
            by simp_all
          with c1 c2 c4 True show thesis
            using that(5) by blast
        next
          case c5: False
          obtain w5 out r5 where c6:
            "(if Platform (opt u) = PlatformName e then execVersion e tmp w4 else (w4, [], None))
               = (w5, out, r5)"
            by (metis prod_cases3)
          show thesis
          proof (cases r5)
            case (Some err)
            with c6 have x: "Platform (opt u) = PlatformName e"
              "execVersion e tmp w4 = (w5, out, Some err)"
              by (auto split: if_splits)
            with c1 c2 c3 c4 c5
            have "DownloadBody u e rp lp tmp w0 = (w5, Some (Wrap err (''exec new version: '' @ out)))"
              by (simp add: DownloadBody_def)
            with assms have "w' = w5" "r = Some (Wrap err (''exec new version: '' @ out))"
              by simp_all
            with x c1 c2 c4 c5 show thesis
              using that(6) by blast
          next
            case None
            with c6 have e5:
              "if Platform (opt u) = PlatformName e
               then (\<exists>out. execVersion e tmp w4 = (w5, out, None)) else w5 = w4"
              by (auto split: if_splits)
            note c6 = c6[unfolded None]
            let ?pre = "if PlatformName e = ''windows'' then
                (case Rename e AtRenameOld lp (lp @ ''.old'') w5 of
                   Inl err \<Rightarrow> if \<not> IsNotExist err then Inl (Wrap err ''rename old'') else Inr w5
                 | Inr w \<Rightarrow> Inr w)
              else Inr w5"
            show thesis
            proof (cases ?pre)
              case (Inl err')
              then obtain err where y: "PlatformName e = ''windows''"
                "Rename e AtRenameOld lp (lp @ ''.old'') w5 = Inl err" "\<not> IsNotExist err"
                "err' = Wrap err ''rename old''"
                by (auto split: if_splits sum.splits)
              from c1 c2 c3 c4 c5 c6 Inl
              have "DownloadBody u e rp lp tmp w0 = (w5, Some err')"
                by (simp add: DownloadBody_def)
              with assms y have "w' = w5" "r = Some (Wrap err ''rename old'')"
                by simp_all
              with y c1 c2 c4 c5 e5 show thesis
                using that(7) by blast
            next
              case c7: (Inr w6)
              then have e6: "if PlatformName e = ''windows''
                 then (case Rename e AtRenameOld lp (lp @ ''.old'') w5 of
                         Inl err \<Rightarrow> IsNotExist err \<and> w6 = w5 | Inr w \<Rightarrow> w6 = w)
                 else w6 = w5"
                by (auto split: if_splits sum.splits)
              show thesis
              proof (cases "Rename e AtRenameNew tmp lp w6")
                case (Inl err)
                with c1 c2 c3 c4 c5 c6 c7
                have "DownloadBody u e rp lp tmp w0 = (w6, Some (Wrap err ''move download''))"
                  by (simp add: DownloadBody_def)
                with assms have "w' = w6" "r = Some (Wrap err ''move download'')"
                  by simp_all
                with Inl c1 c2 c4 c5 e5 e6 show thesis
                  using that(8) by blast
              next
                case (Inr w7)
                with c1 c2 c3 c4 c5 c6 c7
                have "DownloadBody u e rp lp tmp w0 = (w7, None)"
                  by (simp add: DownloadBody_def)
                with assms have "w' = w7" "r = None"
                  by simp_all
                with Inr c1 c2 c4 c5 e5 e6 show thesis
                  using that(9) by blast
              qed
            qed
          qed
        qed
      qed
    qed
  qed
qed

lemma Download_cases [consumes 1, case_names mkdir chmod openf body]:
  assumes "Download u e rp lp w0 = (w', r)"
  obtains
    err where "MkdirAll e AtMkdirStaging (stagingPath u e) (DefaultDirMode e) w0 = Inl err"
      "w' = w0" "r = Some (Wrap err ''initialize download dir'')"
  | w1 err where "MkdirAll e AtMkdirStaging (stagingPath u e) (DefaultDirMode e) w0 = Inr w1"
      "ChmodExecutableDirectory e AtChmodStaging (stagingPath u e) w1 = Inl err"
      "w' = w1" "r = Some err"
  | w1 err where "MkdirAll e AtMkdirStaging (stagingPath u e) (DefaultDirMode e) w0 = Inr w1"
      "OpenFile e AtOpen (tmpPath u e lp) (DefaultExecutableMode e) w1 = Inl err"
      "w' = w1" "r = Some (Wrap err ''open temp file for download'')"
  | w1 w3 w4 where "MkdirAll e AtMkdirStaging (stagingPath u e) (DefaultDirMode e) w0 = Inr w1"
      "OpenFile e AtOpen (tmpPath u e lp) (DefaultExecutableMode e) w1 = Inr w3"
      "DownloadBody u e rp lp (tmpPath u e lp) w3 = (w4, r)"
      "w' = Remove (tmpPath u e lp) w4"
proof (cases "MkdirAll e AtMkdirStaging (stagingPath u e) (DefaultDirMode e) w0")
  case (Inl err)
  then have "Download u e rp lp w0 = (w0, Some (Wrap err ''initialize download dir''))"
    by (simp add: Download_def stagingPath_def)
  with assms have "w' = w0" "r = Some (Wrap err ''initialize download dir'')"
    by simp_all
  with Inl show thesis
    by (rule that(1))
next
  case c1: (Inr w1)
  show thesis
  proof (cases "ChmodExecutableDirectory e AtChmodStaging (stagingPath u e) w1")
    case (Inl err)
    with c1 have "Download u e rp lp w0 = (w1, Some err)"
      by (simp add: Download_def stagingPath_def)
    with assms have "w' = w1" "r = Some err"
      by simp_all
    with c1 Inl show thesis
      by (rule that(2))
  next
    case (Inr w2)
    then have c2: "ChmodExecutableDirectory e AtChmodStaging (stagingPath u e) w1 = Inr w1"
      using ChmodExecutableDirectory_Inr by blast
    show thesis
    proof (cases "OpenFile e AtOpen (tmpPath u e lp) (DefaultExecutableMode e) w1")
      case (Inl err)
      with c1 c2 have "Download u e rp lp w0 = (w1, Some (Wrap err ''open temp file for download''))"
        by (simp add: Download_def stagingPath_def tmpPath_def)
      with assms have "w' = w1" "r = Some (Wrap err ''open temp file for download'')"
        by simp_all
      with c1 Inl show thesis
        by (rule that(3))
    next
      case c3: (Inr w3)
      obtain w4 r4 where c4: "DownloadBody u e rp lp (tmpPath u e lp) w3 = (w4, r4)"
        by (cases "DownloadBody u e rp lp (tmpPath u e lp) w3")
      with c1 c2 c3 have "Download u e rp lp w0 = (Remove (tmpPath u e lp) w4, r4)"
        by (simp add: Download_def stagingPath_def tmpPath_def)
      with assms have "w' = Remove (tmpPath u e lp) w4" "r = r4"
        by simp_all
      with c1 c3 c4 show thesis
        using that(4) by blast
    qed
  qed
qed

text \<open>The two conditional steps of the body: the smoke test and the rename of the old file.\<close>

lemma smoke_step:
  assumes "if P then (\<exists>out. execVersion e tmp w4 = (w5, out, None)) else w5 = w4"
  shows "files w5 = files w4" and "fileAt w5 q = fileAt w4 q" and "lookups w5 = lookups w4"
    and "fetches w5 = fetches w4"
    and "if P then (\<exists>c. execs w5 = execs w4 @ [(tmp, c)] \<and> snd (runVersion e c) = None)
         else execs w5 = execs w4"
proof -
  have "files w5 = files w4 \<and> fileAt w5 q = fileAt w4 q \<and> lookups w5 = lookups w4 \<and>
        fetches w5 = fetches w4 \<and>
        (if P then (\<exists>c. execs w5 = execs w4 @ [(tmp, c)] \<and> snd (runVersion e c) = None)
         else execs w5 = execs w4)"
  proof (cases P)
    case True
    with assms obtain out where "execVersion e tmp w4 = (w5, out, None)"
      by auto
    from execVersion_eq[OF this] True show ?thesis
      by simp
  next
    case False
    with assms show ?thesis
      by simp
  qed
  then show "files w5 = files w4" and "fileAt w5 q = fileAt w4 q" and "lookups w5 = lookups w4"
    and "fetches w5 = fetches w4"
    and "if P then (\<exists>c. execs w5 = execs w4 @ [(tmp, c)] \<and> snd (runVersion e c) = None)
         else execs w5 = execs w4"
    by simp_all
qed

lemma prerename_step:
  assumes "if W then (case Rename e s lp (lp @ ''.old'') w5 of
                        Inl err \<Rightarrow> IsNotExist err \<and> w6 = w5 | Inr w \<Rightarrow> w6 = w)
           else w6 = w5"
  shows "lookups w6 = lookups w5" and "fetches w6 = fetches w5" and "execs w6 = execs w5"
    and "q \<noteq> lp \<Longrightarrow> q \<noteq> lp @ ''.old'' \<Longrightarrow> files w6 q = files w5 q"
    and "files w6 lp = files w5 lp \<or> (W \<and> files w6 lp = None)"
proof -
  have "lookups w6 = lookups w5 \<and> fetches w6 = fetches w5 \<and> execs w6 = execs w5 \<and>
        (q \<noteq> lp \<longrightarrow> q \<noteq> lp @ ''.old'' \<longrightarrow> files w6 q = files w5 q) \<and>
        (files w6 lp = files w5 lp \<or> (W \<and> files w6 lp = None))"
  proof (cases "W \<and> (\<exists>w. Rename e s lp (lp @ ''.old'') w5 = Inr w)")
    case True
    with assms have r: "Rename e s lp (lp @ ''.old'') w5 = Inr w6" and W
      by auto
    from Rename_Inr[OF r] \<open>W\<close> show ?thesis
      by simp
  next
    case False
    with assms have "w6 = w5"
      by (cases "Rename e s lp (lp @ ''.old'') w5") (auto split: if_splits)
    then show ?thesis
      by simp
  qed
  then show "lookups w6 = lookups w5" and "fetches w6 = fetches w5" and "execs w6 = execs w5"
    and "q \<noteq> lp \<Longrightarrow> q \<noteq> lp @ ''.old'' \<Longrightarrow> files w6 q = files w5 q"
    and "files w6 lp = files w5 lp \<or> (W \<and> files w6 lp = None)"
    by simp_all
qed

text \<open>What a download logs: no lookup, at most one fetch, at most one execution.\<close>

lemma DownloadBody_logs:
  assumes "DownloadBody u e rp lp tmp w0 = (w', r)"
  shows "lookups w' = lookups w0 \<and>
         (fetches w' = fetches w0 \<or> fetches w' = fetches w0 @ [rp]) \<and>
         (execs w' = execs w0 \<or>
          (Platform (opt u) = PlatformName e \<and> (\<exists>c. execs w' = execs w0 @ [(tmp, c)])))"
  using assms
proof (cases rule: DownloadBody_cases)
  case (chmod err)
  then show ?thesis by simp
next
  case (mkdir w1 err)
  with ChmodExecutable_Inr[OF mkdir(1)] show ?thesis by simp
next
  case (chmodDir w1 w2 err)
  with ChmodExecutable_Inr[OF chmodDir(1)] MkdirAll_Inr[OF chmodDir(2)] show ?thesis by simp
next
  case (fetch w1 w2 err)
  with ChmodExecutable_Inr[OF fetch(1)] MkdirAll_Inr[OF fetch(2)] clientDownload_eq[OF fetch(3)]
  show ?thesis by simp
next
  case (close w1 w2)
  with ChmodExecutable_Inr[OF close(1)] MkdirAll_Inr[OF close(2)] clientDownload_eq[OF close(3)]
  show ?thesis by simp
next
  case (exec w1 w2 w4 out err)
  with ChmodExecutable_Inr[OF exec(1)] MkdirAll_Inr[OF exec(2)] clientDownload_eq[OF exec(3)]
    execVersion_eq[OF exec(6)]
  show ?thesis by auto
next
  case (renameOld w1 w2 w4 w5 err)
  with ChmodExecutable_Inr[OF renameOld(1)] MkdirAll_Inr[OF renameOld(2)]
    clientDownload_eq[OF renameOld(3)] smoke_step(3,4,5)[OF renameOld(5)]
  show ?thesis by (auto split: if_splits)
next
  case (renameNew w1 w2 w4 w5 w6 err)
  with ChmodExecutable_Inr[OF renameNew(1)] MkdirAll_Inr[OF renameNew(2)]
    clientDownload_eq[OF renameNew(3)] smoke_step(3,4,5)[OF renameNew(5)]
    prerename_step(1,2,3)[OF renameNew(6)]
  show ?thesis by (auto split: if_splits)
next
  case (ok w1 w2 w4 w5 w6)
  with ChmodExecutable_Inr[OF ok(1)] MkdirAll_Inr[OF ok(2)]
    clientDownload_eq[OF ok(3)] smoke_step(3,4,5)[OF ok(5)]
    prerename_step(1,2,3)[OF ok(6)] Rename_Inr[OF ok(7)]
  show ?thesis by (auto split: if_splits)
qed

lemma Download_logs:
  assumes "Download u e rp lp w0 = (w', r)"
  shows "lookups w' = lookups w0 \<and>
         (fetches w' = fetches w0 \<or> fetches w' = fetches w0 @ [rp]) \<and>
         (execs w' = execs w0 \<or>
          (Platform (opt u) = PlatformName e \<and>
           (\<exists>c. execs w' = execs w0 @ [(tmpPath u e lp, c)])))"
  using assms
proof (cases rule: Download_cases)
  case (mkdir err)
  then show ?thesis by simp
next
  case (chmod w1 err)
  with MkdirAll_Inr[OF chmod(1)] show ?thesis by simp
next
  case (openf w1 err)
  with MkdirAll_Inr[OF openf(1)] show ?thesis by simp
next
  case (body w1 w3 w4)
  with MkdirAll_Inr[OF body(1)] OpenFile_Inr[OF body(2)] DownloadBody_logs[OF body(3)]
  show ?thesis by (simp add: Remove_simps)
qed

text \<open>Where a failed download leaves the destination.\<close>

lemma DownloadBody_failure:
  assumes "DownloadBody u e rp lp tmp w0 = (w', Some err)" and "lp \<noteq> tmp"
  shows "fileAt w' lp = fileAt w0 lp \<or>
         (PlatformName e = ''windows'' \<and> (\<exists>err0. err = Wrap err0 ''move download'') \<and>
          fileAt w' lp = None)"
  using assms(1)
proof (cases rule: DownloadBody_cases)
  case (chmod err)
  then show ?thesis by simp
next
  case (mkdir w1 err)
  with ChmodExecutable_Inr[OF mkdir(1)] show ?thesis by simp
next
  case (chmodDir w1 w2 err)
  with ChmodExecutable_Inr[OF chmodDir(1)] MkdirAll_Inr[OF chmodDir(2)] show ?thesis by simp
next
  case (fetch w1 w2 err)
  with ChmodExecutable_Inr[OF fetch(1)] MkdirAll_Inr[OF fetch(2)] clientDownload_eq[OF fetch(3)]
    assms(2)
  show ?thesis by simp
next
  case (close w1 w2)
  with ChmodExecutable_Inr[OF close(1)] MkdirAll_Inr[OF close(2)] clientDownload_eq[OF close(3)]
    assms(2)
  show ?thesis by simp
next
  case (exec w1 w2 w4 out err)
  with ChmodExecutable_Inr[OF exec(1)] MkdirAll_Inr[OF exec(2)] clientDownload_eq[OF exec(3)]
    execVersion_eq[OF exec(6)] assms(2)
  show ?thesis by simp
next
  case (renameOld w1 w2 w4 w5 err)
  with ChmodExecutable_Inr[OF renameOld(1)] MkdirAll_Inr[OF renameOld(2)]
    clientDownload_eq[OF renameOld(3)] smoke_step(2)[OF renameOld(5), of lp] assms(2)
  show ?thesis by simp
next
  case (renameNew w1 w2 w4 w5 w6 err0)
  have "fileAt w5 lp = fileAt w0 lp"
    using ChmodExecutable_Inr[OF renameNew(1)] MkdirAll_Inr[OF renameNew(2)]
      clientDownload_eq[OF renameNew(3)] smoke_step(2)[OF renameNew(5), of lp] assms(2)
    by simp
  moreover have "fileAt w6 lp = fileAt w5 lp \<or> (PlatformName e = ''windows'' \<and> fileAt w6 lp = None)"
    using prerename_step(5)[OF renameNew(6)] by (auto simp: fileAt_def)
  ultimately show ?thesis
    using renameNew(8,9) by auto
next
  case (ok w1 w2 w4 w5 w6)
  then show ?thesis by simp
qed





text \<open>What a successful download publishes when the staging path was free.\<close>

lemma clientDownload_written:
  assumes "clientDownload c rp tmp w = (w', r)" and "fileAt w tmp = Some old"
  shows "\<exists>bytes. client_Download c rp = (bytes, r) \<and>
                 fileAt w' tmp = Some (bytes @ drop (length bytes) old)"
  using assms
  by (auto simp: clientDownload_def writeFile_def fileAt_def
      split: prod.splits option.splits node.splits)

lemma DownloadBody_success:
  assumes "DownloadBody u e rp lp tmp w0 = (w', None)" and "fileAt w0 tmp = Some []"
    and "tmp \<noteq> lp" and "tmp \<noteq> lp @ ''.old''"
  shows "\<exists>bytes. client_Download (client u) rp = (bytes, None) \<and> fileAt w' lp = Some bytes \<and>
                 fetches w' = fetches w0 @ [rp]"
  using assms(1)
proof (cases rule: DownloadBody_cases)
  case (ok w1 w2 w4 w5 w6)
  have "fileAt w2 tmp = Some []"
    using ChmodExecutable_Inr[OF ok(1)] MkdirAll_Inr[OF ok(2)] assms(2) by simp
  from clientDownload_written[OF ok(3) this]
  obtain bytes where b: "client_Download (client u) rp = (bytes, None)"
    and w4: "fileAt w4 tmp = Some bytes"
    by auto
  have "fileAt w5 tmp = Some bytes"
    using smoke_step(2)[OF ok(5), of tmp] w4 by simp
  moreover have "files w6 tmp = files w5 tmp"
    using prerename_step(4)[OF ok(6) assms(3,4)] .
  ultimately have "fileAt w6 tmp = Some bytes"
    by (simp add: fileAt_def)
  then have "fileAt w' lp = Some bytes"
    using Rename_Inr[OF ok(7)] by simp
  moreover have "fetches w' = fetches w0 @ [rp]"
    using ChmodExecutable_Inr[OF ok(1)] MkdirAll_Inr[OF ok(2)] clientDownload_eq[OF ok(3)]
      smoke_step(4)[OF ok(5)] prerename_step(2)[OF ok(6)] Rename_Inr[OF ok(7)]
    by simp
  ultimately show ?thesis
    using b by blast
qed simp_all

lemma Download_success:
  assumes "Download u e rp lp w = (w', None)" and "files w (tmpPath u e lp) = None"
    and "tmpPath u e lp \<noteq> lp" and "tmpPath u e lp \<noteq> lp @ ''.old''"
  shows "\<exists>bytes. client_Download (client u) rp = (bytes, None) \<and> fileAt w' lp = Some bytes \<and>
                 fetches w' = fetches w @ [rp]"
  using assms(1)
proof (cases rule: Download_cases)
  case (body w1 w3 w4)
  let ?tmp = "tmpPath u e lp"
  have "files w1 ?tmp \<noteq> Some Directory"
    using OpenFile_Inr[OF body(2)] by simp
  then have "?tmp \<noteq> stagingPath u e"
    using MkdirAll_Inr[OF body(1)] by auto
  then have "files w1 ?tmp = None"
    using MkdirAll_Inr[OF body(1)] assms(2) by simp
  then have "fileAt w3 ?tmp = Some []"
    using OpenFile_Inr[OF body(2)] by (auto simp: fileAt_def)
  from DownloadBody_success[OF body(3) this assms(3,4)]
  obtain bytes where "client_Download (client u) rp = (bytes, None)" "fileAt w4 lp = Some bytes"
    "fetches w4 = fetches w3 @ [rp]"
    by auto
  moreover have "fetches w3 = fetches w"
    using MkdirAll_Inr[OF body(1)] OpenFile_Inr[OF body(2)] by simp
  ultimately show ?thesis
    using body(4) assms(3) by (auto simp: Remove_simps)
qed simp_all

text \<open>
  The publish step on Windows, when the staging path was free: the file that was at the
  destination is at \<^verbatim>\<open>.old\<close>, and the bytes the TUF client delivered are at the
  destination.
\<close>

lemma Download_windows_publish:
  assumes "Download u e rp lp w = (w', None)" and "PlatformName e = ''windows''"
    and "files w (tmpPath u e lp) = None"
    and "tmpPath u e lp \<noteq> lp" and "tmpPath u e lp \<noteq> lp @ ''.old''"
    and "fileAt w lp = Some old"
  shows "fileAt w' (lp @ ''.old'') = Some old \<and>
         (\<exists>bytes. client_Download (client u) rp = (bytes, None) \<and> fileAt w' lp = Some bytes)"
proof -
  let ?tmp = "tmpPath u e lp"
  have new: "\<exists>bytes. client_Download (client u) rp = (bytes, None) \<and> fileAt w' lp = Some bytes"
    using Download_success[OF assms(1,3,4,5)] by blast
  have "fileAt w' (lp @ ''.old'') = Some old"
    using assms(1)
  proof (cases rule: Download_cases)
    case (body w1 w3 w4)
    have w3: "fileAt w3 lp = Some old"
      using MkdirAll_Inr[OF body(1)] OpenFile_Inr[OF body(2)] assms(4,6) by simp
    from body(3) have "fileAt w4 (lp @ ''.old'') = Some old"
    proof (cases rule: DownloadBody_cases)
      case (ok v1 v2 v4 v5 v6)
      have v5: "fileAt v5 lp = Some old"
        using ChmodExecutable_Inr[OF ok(1)] MkdirAll_Inr[OF ok(2)] clientDownload_eq[OF ok(3)]
          smoke_step(2)[OF ok(5), of lp] assms(4) w3
        by simp
      then have "files v5 lp \<noteq> None"
        by (auto simp: fileAt_def split: option.splits)
      then have "Rename e AtRenameOld lp (lp @ ''.old'') v5 = Inr v6"
        using ok(6) assms(2)
        by (cases "Rename e AtRenameOld lp (lp @ ''.old'') v5")
          (auto simp: Rename_def IsNotExist_def split: if_splits option.splits)
      from Rename_Inr[OF this] v5 have "fileAt v6 (lp @ ''.old'') = Some old"
        by simp
      then show ?thesis
        using Rename_Inr[OF ok(7)] assms(5) by simp
    qed simp_all
    then show ?thesis
      using body(4) assms(5) by (simp add: Remove_simps)
  qed simp_all
  with new show ?thesis
    by simp
qed




text \<open>The cached artifact is accepted.\<close>

lemma Get_hit:
  assumes "target \<noteq> []" and "channel \<noteq> []"
    and "Stat e (LocalPath u e target channel) w = Inr (Regular bytes m)"
    and "client_Target (client u) (RepoPath u e target channel) = Inr meta"
    and "list_all (\<lambda>(alg, h). hashOf e alg bytes = h) (Hashes meta)"
  shows "Get u e target channel w =
           (w\<lparr>lookups := lookups w @ [RepoPath u e target channel]\<rparr>,
            LocalPath u e target channel, None)"
proof -
  have "files w (LocalPath u e target channel) = Some (Regular bytes m)"
    using assms(3) by (auto simp: Stat_def split: if_splits option.splits)
  then have "CheckFileHash e meta (LocalPath u e target channel)
               (w\<lparr>lookups := lookups w @ [RepoPath u e target channel]\<rparr>) = None"
    using assms(5) by (simp add: CheckFileHash_def)
  then show ?thesis
    using assms(1-4) by (simp add: Get_def Lookup_def Let_def)
qed

lemma fails_irrelevant:
  "LocalPath u (e\<lparr>fails := f\<rparr>) target channel = LocalPath u e target channel"
  "RepoPath u (e\<lparr>fails := f\<rparr>) target channel = RepoPath u e target channel"
  by (simp_all add: LocalPath_def RepoPath_def pathFromRoot_def)

lemma Stat_regular:
  assumes "fileAt w p = Some bytes" and "\<not> f AtStat"
  shows "\<exists>m. Stat (e\<lparr>fails := f\<rparr>) p w = Inr (Regular bytes m)"
  using assms by (auto simp: Stat_def fileAt_def split: option.splits node.splits)

text \<open>A joined path is never empty.\<close>

lemma elements_nonempty: "\<forall>x\<in>set (elements isSep cur s). x \<noteq> []"
  by (induction s arbitrary: cur) auto

lemma cleanStep_nonempty:
  "\<forall>x\<in>set kept. x \<noteq> [] \<Longrightarrow> el \<noteq> [] \<Longrightarrow> \<forall>x\<in>set (cleanStep r kept el). x \<noteq> []"
  by (auto simp: cleanStep_def dest: in_set_butlastD)

lemma foldl_cleanStep_nonempty:
  "\<forall>x\<in>set kept. x \<noteq> [] \<Longrightarrow> \<forall>x\<in>set els. x \<noteq> [] \<Longrightarrow>
     \<forall>x\<in>set (foldl (cleanStep r) kept els). x \<noteq> []"
proof (induction els arbitrary: kept)
  case Nil
  then show ?case by simp
next
  case (Cons el els)
  from Cons.prems have "\<forall>x\<in>set (cleanStep r kept el). x \<noteq> []"
    by (intro cleanStep_nonempty) auto
  with Cons show ?case by simp
qed

lemma joinWith_nonempty: "xs \<noteq> [] \<Longrightarrow> \<forall>x\<in>set xs. x \<noteq> [] \<Longrightarrow> joinWith s xs \<noteq> []"
  by (induction s xs rule: joinWith.induct) auto

lemma Clean_nonempty: "Clean isSep sep p \<noteq> []"
proof (cases p)
  case Nil
  then show ?thesis by (simp add: Clean_def)
next
  case (Cons c cs)
  let ?kept = "foldl (cleanStep (isSep c)) [] (elements isSep [] p)"
  have "\<forall>x\<in>set ?kept. x \<noteq> []"
    by (rule foldl_cleanStep_nonempty) (simp_all add: elements_nonempty)
  then have "?kept \<noteq> [] \<Longrightarrow> joinWith [sep] ?kept \<noteq> []"
    by (rule joinWith_nonempty[rotated])
  then show ?thesis
    using Cons by (auto simp: Clean_def Let_def)
qed

lemma Join_nonempty: "\<exists>x\<in>set elem. x \<noteq> [] \<Longrightarrow> Join isSep sep elem \<noteq> []"
proof -
  assume "\<exists>x\<in>set elem. x \<noteq> []"
  then have "dropWhile (\<lambda>el. el = []) elem \<noteq> []"
    by (auto simp: dropWhile_eq_Nil_conv)
  then show ?thesis
    by (auto simp: Join_def Clean_nonempty split: list.splits)
qed

lemma filepath_Clean_nonempty: "filepath_Clean goos p \<noteq> []"
  by (simp add: filepath_Clean_def Let_def Clean_nonempty)

lemma filepath_Join_nonempty: "\<exists>x\<in>set elem. x \<noteq> [] \<Longrightarrow> filepath_Join goos elem \<noteq> []"
proof -
  assume "\<exists>x\<in>set elem. x \<noteq> []"
  then have "dropWhile (\<lambda>el. el = []) elem \<noteq> []"
    by (auto simp: dropWhile_eq_Nil_conv)
  then show ?thesis
    by (auto simp: filepath_Join_def filepath_Clean_nonempty split: list.splits)
qed

lemma LocalPath_nonempty: "LocalPath u e target channel \<noteq> []"
proof -
  have "filepath_Join (PlatformName e)
          [binDir, target, Platform (opt u), channel,
           target @ ExecutableExtension e (Platform (opt u))] \<noteq> []"
    by (rule filepath_Join_nonempty) (simp add: binDir_def)
  then show ?thesis
    unfolding LocalPath_def pathFromRoot_def by (intro filepath_Join_nonempty) simp
qed

text \<open>Off Windows there is no volume name: \<^verbatim>\<open>filepath.Join\<close> is the plain join.\<close>

lemma volumeNameLen_posix: "goos \<noteq> ''windows'' \<Longrightarrow> volumeNameLen goos p = 0"
  by (simp add: volumeNameLen_def)

lemma filepath_Clean_posix:
  "goos \<noteq> ''windows'' \<Longrightarrow>
     filepath_Clean goos p = Clean (IsPathSeparator goos) (Separator goos) p"
  by (simp add: filepath_Clean_def volumeNameLen_posix Clean_def)

lemma filepath_Join_posix:
  "goos \<noteq> ''windows'' \<Longrightarrow>
     filepath_Join goos elem = Join (IsPathSeparator goos) (Separator goos) elem"
  by (simp add: filepath_Join_def Join_def filepath_Clean_posix cong: list.case_cong)

text \<open>Plain names joined by the separator are clean.\<close>

lemma elements_free_append:
  "\<forall>c\<in>set n. \<not> isSep c \<Longrightarrow> elements isSep cur (n @ rest) = elements isSep (cur @ n) rest"
  by (induction n arbitrary: cur) auto

lemma elements_joinWith:
  assumes "isSep sep" and "\<forall>n\<in>set names. n \<noteq> [] \<and> (\<forall>c\<in>set n. \<not> isSep c)"
  shows "elements isSep [] (joinWith [sep] names) = names"
  using assms(2)
proof (induction "[sep]" names rule: joinWith.induct)
  case 1
  then show ?case by simp
next
  case (2 x)
  then show ?case
    using elements_free_append[of x isSep "[]" "[]"] by simp
next
  case (3 x y ys)
  have "elements isSep [] (x @ [sep] @ joinWith [sep] (y # ys))
          = elements isSep x ([sep] @ joinWith [sep] (y # ys))"
    using 3(2) elements_free_append[of x isSep "[]"] by simp
  also have "\<dots> = x # elements isSep [] (joinWith [sep] (y # ys))"
    using assms(1) 3(2) by simp
  finally show ?case
    using 3 by simp
qed

lemma foldl_cleanStep_plain:
  "\<forall>n\<in>set names. n \<noteq> ''.'' \<and> n \<noteq> ''..'' \<Longrightarrow> foldl (cleanStep r) kept names = kept @ names"
  by (induction names arbitrary: kept) (auto simp: cleanStep_def)

lemma joinWith_Cons: "xs \<noteq> [] \<Longrightarrow> joinWith s (x # xs) = x @ s @ joinWith s xs"
  by (cases xs) simp_all

lemma joinWith_append:
  "xs \<noteq> [] \<Longrightarrow> ys \<noteq> [] \<Longrightarrow> joinWith s (xs @ ys) = joinWith s xs @ s @ joinWith s ys"
proof (induction s xs rule: joinWith.induct)
  case (1 s)
  then show ?case by simp
next
  case (2 s x)
  then show ?case by (simp add: joinWith_Cons)
next
  case (3 s x y zs)
  then show ?case by simp
qed

lemma Clean_rooted:
  assumes "isSep sep"
    and "\<forall>n\<in>set names. n \<noteq> [] \<and> n \<noteq> ''.'' \<and> n \<noteq> ''..'' \<and> (\<forall>c\<in>set n. \<not> isSep c)"
  shows "Clean isSep sep (sep # joinWith [sep] names) = sep # joinWith [sep] names"
proof -
  have "elements isSep [] (sep # joinWith [sep] names) = elements isSep [] (joinWith [sep] names)"
    using assms(1) by simp
  then have el: "elements isSep [] (sep # joinWith [sep] names) = names"
    using assms elements_joinWith[of isSep sep names] by simp
  have fo: "foldl (cleanStep True) [] names = names"
    using assms(2) foldl_cleanStep_plain[of names True "[]"] by simp
  have sep: "isSep sep = True"
    using assms(1) by simp
  show ?thesis
    by (simp only: Clean_def list.case Let_def el sep fo if_True)
qed

lemma Clean_relative:
  assumes "isSep sep" and "names \<noteq> []"
    and "\<forall>n\<in>set names. n \<noteq> [] \<and> n \<noteq> ''.'' \<and> n \<noteq> ''..'' \<and> (\<forall>c\<in>set n. \<not> isSep c)"
  shows "Clean isSep sep (joinWith [sep] names) = joinWith [sep] names"
proof -
  obtain n ns where names: "names = n # ns"
    using assms(2) by (cases names) auto
  with assms(3) obtain c cs where n: "n = c # cs" and "\<not> isSep c"
    by (cases n) auto
  then have c: "isSep c = False"
    by simp
  obtain rest where jr: "joinWith [sep] names = c # rest"
    using names n by (cases ns) simp_all
  have el: "elements isSep [] (c # rest) = names"
    using elements_joinWith[of isSep sep names] assms(1,3) unfolding jr by blast
  have fo: "foldl (cleanStep False) [] names = names"
    using assms(3) foldl_cleanStep_plain[of names False "[]"] by simp
  have ne: "(names = []) = False"
    using assms(2) by simp
  have "Clean isSep sep (c # rest) = joinWith [sep] names"
    by (simp only: Clean_def list.case Let_def el c fo ne if_False)
  then show ?thesis
    by (simp only: jr)
qed

lemma Join_plain:
  assumes "isSep sep" and "names \<noteq> []"
    and "\<forall>n\<in>set names. n \<noteq> [] \<and> n \<noteq> ''.'' \<and> n \<noteq> ''..'' \<and> (\<forall>c\<in>set n. \<not> isSep c)"
  shows "Join isSep sep names = joinWith [sep] names"
proof -
  obtain n ns where names: "names = n # ns"
    using assms(2) by (cases names) auto
  with assms(3) have "n \<noteq> []"
    by simp
  then have "Join isSep sep names = Clean isSep sep (joinWith [sep] names)"
    using names by (simp add: Join_def)
  with Clean_relative[OF assms] show ?thesis
    by simp
qed

lemma plainName_free:
  assumes "plainName n"
  shows "n \<noteq> [] \<and> n \<noteq> ''.'' \<and> n \<noteq> ''..'' \<and> (\<forall>c\<in>set n. \<not> IsPathSeparator goos c)"
    and "n \<noteq> [] \<and> n \<noteq> ''.'' \<and> n \<noteq> ''..'' \<and> (\<forall>c\<in>set n. \<not> c = CHR ''/'')"
  using assms by (auto simp: plainName_def IsPathSeparator_def)

lemma IsPathSeparator_Separator: "IsPathSeparator goos (Separator goos)"
  by (simp add: IsPathSeparator_def Separator_def)

lemma RepoPath_plain:
  assumes "plainName target" and "plainName (Platform (opt u))" and "plainName channel"
    and "plainName (target @ ExecutableExtension e (Platform (opt u)))"
  shows "RepoPath u e target channel =
           target @ ''/'' @ Platform (opt u) @ ''/'' @ channel @ ''/'' @ target @
           ExecutableExtension e (Platform (opt u))"
proof -
  let ?names = "[target, Platform (opt u), channel, target @ ExecutableExtension e (Platform (opt u))]"
  have "\<forall>n\<in>set ?names. n \<noteq> [] \<and> n \<noteq> ''.'' \<and> n \<noteq> ''..'' \<and> (\<forall>c\<in>set n. \<not> c = CHR ''/'')"
    using assms plainName_free(2) by auto
  then have "Join (\<lambda>c. c = CHR ''/'') (CHR ''/'') ?names = joinWith ''/'' ?names"
    by (intro Join_plain) simp_all
  then show ?thesis
    by (simp add: RepoPath_def path_Join_def)
qed

lemma Join_under_root:
  assumes "isSep sep"
    and "names \<noteq> []"
    and "\<forall>n\<in>set names. n \<noteq> [] \<and> n \<noteq> ''.'' \<and> n \<noteq> ''..'' \<and> (\<forall>c\<in>set n. \<not> isSep c)"
    and "inner \<noteq> []"
    and "\<forall>n\<in>set inner. n \<noteq> [] \<and> n \<noteq> ''.'' \<and> n \<noteq> ''..'' \<and> (\<forall>c\<in>set n. \<not> isSep c)"
    and "pre = [] \<or> pre = [sep]"
    and "root = pre @ joinWith [sep] names"
  shows "Join isSep sep [root, joinWith [sep] inner] = root @ [sep] @ joinWith [sep] inner"
    and "root @ [sep] @ joinWith [sep] inner = pre @ joinWith [sep] (names @ inner)"
proof -
  have all: "\<forall>n\<in>set (names @ inner). n \<noteq> [] \<and> n \<noteq> ''.'' \<and> n \<noteq> ''..'' \<and> (\<forall>c\<in>set n. \<not> isSep c)"
    using assms(3,5) by auto
  have rootne: "root \<noteq> []"
    using assms(2,3,7) joinWith_nonempty[of names "[sep]"] by simp
  show eq: "root @ [sep] @ joinWith [sep] inner = pre @ joinWith [sep] (names @ inner)"
    using assms(2,4,7) by (simp add: joinWith_append)
  have "Clean isSep sep (pre @ joinWith [sep] (names @ inner)) = pre @ joinWith [sep] (names @ inner)"
  proof (cases "pre = []")
    case True
    then show ?thesis
      using Clean_relative[OF assms(1) _ all] assms(2) by simp
  next
    case False
    with assms(6) have "pre = [sep]"
      by simp
    then show ?thesis
      using Clean_rooted[OF assms(1) all] by simp
  qed
  then have "Clean isSep sep (root @ [sep] @ joinWith [sep] inner) = root @ [sep] @ joinWith [sep] inner"
    using eq by simp
  then show "Join isSep sep [root, joinWith [sep] inner] = root @ [sep] @ joinWith [sep] inner"
    using rootne by (simp add: Join_def)
qed

lemma LocalPath_plain:
  assumes "plainName target" and "plainName (Platform (opt u))" and "plainName channel"
    and "plainName (target @ ExecutableExtension e (Platform (opt u)))"
    and "names \<noteq> []" and "list_all plainName names"
    and "pre = [] \<or> pre = [Separator (PlatformName e)]"
    and "RootDirectory (opt u) = pre @ joinWith [Separator (PlatformName e)] names"
    and "PlatformName e \<noteq> ''windows''"
  shows "LocalPath u e target channel =
           RootDirectory (opt u) @ [Separator (PlatformName e)] @ ''bin'' @
           [Separator (PlatformName e)] @ target @ [Separator (PlatformName e)] @
           Platform (opt u) @ [Separator (PlatformName e)] @ channel @
           [Separator (PlatformName e)] @ target @ ExecutableExtension e (Platform (opt u))"
proof -
  let ?sep = "Separator (PlatformName e)"
  let ?isSep = "IsPathSeparator (PlatformName e)"
  let ?inner = "[binDir, target, Platform (opt u), channel,
                 target @ ExecutableExtension e (Platform (opt u))]"
  let ?P = "\<lambda>n. n \<noteq> [] \<and> n \<noteq> ''.'' \<and> n \<noteq> ''..'' \<and> (\<forall>c\<in>set n. \<not> ?isSep c)"
  have sep: "?isSep ?sep"
    by (rule IsPathSeparator_Separator)
  have "plainName binDir"
    by (simp add: plainName_def binDir_def)
  then have inner: "\<forall>n\<in>set ?inner. ?P n"
    using assms(1-4) plainName_free(1) by auto
  have names: "\<forall>n\<in>set names. ?P n"
    using assms(6) plainName_free(1) by (auto simp: list_all_iff)
  have j: "Join ?isSep ?sep ?inner = joinWith [?sep] ?inner"
    using sep inner by (intro Join_plain) simp_all
  have "LocalPath u e target channel = RootDirectory (opt u) @ [?sep] @ joinWith [?sep] ?inner"
    using Join_under_root(1)[OF sep assms(5) names _ inner assms(7,8)] j
    by (simp add: LocalPath_def pathFromRoot_def filepath_Join_posix[OF assms(9)])
  then show ?thesis
    by (simp add: binDir_def)
qed

text \<open>
  Off Windows, for plain names under a root of plain names, the staging file of the local
  path is \<^verbatim>\<open><root>/staging/<target><ext>\<close>: it is neither the local path nor its
  \<^verbatim>\<open>.old\<close> neighbour.
\<close>

lemma Base_last:
  assumes "goos \<noteq> ''windows''" and "n \<noteq> []" and "\<forall>c\<in>set n. \<not> IsPathSeparator goos c"
  shows "filepath_Base goos (p @ [Separator goos] @ n) = n"
proof -
  let ?isSep = "IsPathSeparator goos"
  let ?sep = "Separator goos"
  obtain c cs where r: "rev n = c # cs"
    using assms(2) by (cases "rev n") auto
  then have "c \<in> set (rev n)"
    by simp
  then have "c \<in> set n"
    by simp
  with assms(3) have c: "\<not> ?isSep c"
    by simp
  have rv: "rev (p @ [?sep] @ n) = rev n @ ?sep # rev p"
    by simp
  have d: "dropWhile ?isSep (rev n @ ?sep # rev p) = rev n @ ?sep # rev p"
    using r c by simp
  have "takeWhile (\<lambda>c. \<not> ?isSep c) (rev n @ ?sep # rev p)
          = rev n @ takeWhile (\<lambda>c. \<not> ?isSep c) (?sep # rev p)"
    using assms(3) by (intro takeWhile_append2) simp
  then have t: "takeWhile (\<lambda>c. \<not> ?isSep c) (rev n @ ?sep # rev p) = rev n"
    using IsPathSeparator_Separator[of goos] by simp
  have q: "rev (dropWhile ?isSep (rev (p @ [?sep] @ n))) = p @ [?sep] @ n"
    unfolding rv d by simp
  show ?thesis
    unfolding filepath_Base_def q volumeNameLen_posix[OF assms(1)] Let_def drop_0
    unfolding rv t using r by simp
qed

lemma tmpPath_plain:
  assumes "plainName target" and "plainName (Platform (opt u))" and "plainName channel"
    and "plainName (target @ ExecutableExtension e (Platform (opt u)))"
    and "names \<noteq> []" and "list_all plainName names"
    and "pre = [] \<or> pre = [Separator (PlatformName e)]"
    and "RootDirectory (opt u) = pre @ joinWith [Separator (PlatformName e)] names"
    and "PlatformName e \<noteq> ''windows''"
  shows "tmpPath u e (LocalPath u e target channel) =
           RootDirectory (opt u) @ [Separator (PlatformName e)] @ ''staging'' @
           [Separator (PlatformName e)] @ target @ ExecutableExtension e (Platform (opt u))"
proof -
  let ?sep = "Separator (PlatformName e)"
  let ?isSep = "IsPathSeparator (PlatformName e)"
  let ?tx = "target @ ExecutableExtension e (Platform (opt u))"
  let ?P = "\<lambda>n. n \<noteq> [] \<and> n \<noteq> ''.'' \<and> n \<noteq> ''..'' \<and> (\<forall>c\<in>set n. \<not> ?isSep c)"
  have sep: "?isSep ?sep"
    by (rule IsPathSeparator_Separator)
  have names: "\<forall>n\<in>set names. ?P n"
    using assms(6) plainName_free(1) by (auto simp: list_all_iff)
  have tx: "?P ?tx"
    using assms(4) plainName_free(1) by blast
  have "plainName stagingDir"
    by (simp add: plainName_def stagingDir_def)
  then have st: "\<forall>n\<in>set [stagingDir]. ?P n"
    using plainName_free(1) by simp
  have staging: "stagingPath u e = RootDirectory (opt u) @ [?sep] @ stagingDir"
    using Join_under_root(1)[OF sep assms(5) names _ st assms(7,8)]
    by (simp add: stagingPath_def filepath_Join_posix[OF assms(9)])
  have staging': "stagingPath u e = pre @ joinWith [?sep] (names @ [stagingDir])"
    using Join_under_root(2)[OF sep assms(5) names _ st assms(7,8)] staging by simp
  let ?p = "RootDirectory (opt u) @ [?sep] @ ''bin'' @ [?sep] @ target @ [?sep] @
            Platform (opt u) @ [?sep] @ channel"
  have lp: "LocalPath u e target channel = ?p @ [?sep] @ ?tx"
    using LocalPath_plain[OF assms] by simp
  have "filepath_Base (PlatformName e) (?p @ [?sep] @ ?tx) = ?tx"
    using tx by (intro Base_last[where goos = "PlatformName e" and n = ?tx, OF assms(9)]) simp_all
  then have base: "filepath_Base (PlatformName e) (LocalPath u e target channel) = ?tx"
    by (simp only: lp)
  have names': "\<forall>n\<in>set (names @ [stagingDir]). ?P n"
    using names st by auto
  have "Join ?isSep ?sep [stagingPath u e, joinWith [?sep] [?tx]]
          = stagingPath u e @ [?sep] @ joinWith [?sep] [?tx]"
    using tx by (intro Join_under_root(1)[OF sep _ names' _ _ assms(7) staging']) simp_all
  then show ?thesis
    using base staging by (simp add: tmpPath_def filepath_Join_posix[OF assms(9)] stagingDir_def)
qed

lemma tmpPath_apart:
  assumes "plainName target" and "plainName (Platform (opt u))" and "plainName channel"
    and "plainName (target @ ExecutableExtension e (Platform (opt u)))"
    and "names \<noteq> []" and "list_all plainName names"
    and "pre = [] \<or> pre = [Separator (PlatformName e)]"
    and "RootDirectory (opt u) = pre @ joinWith [Separator (PlatformName e)] names"
    and "PlatformName e \<noteq> ''windows''"
  shows "tmpPath u e (LocalPath u e target channel) \<noteq> LocalPath u e target channel"
    and "tmpPath u e (LocalPath u e target channel) \<noteq> LocalPath u e target channel @ ''.old''"
proof -
  note t = tmpPath_plain[OF assms] and l = LocalPath_plain[OF assms]
  show "tmpPath u e (LocalPath u e target channel) \<noteq> LocalPath u e target channel"
    unfolding t unfolding l by simp
  show "tmpPath u e (LocalPath u e target channel) \<noteq> LocalPath u e target channel @ ''.old''"
    unfolding t unfolding l by simp
qed

text \<open>The paths of the concrete installation.\<close>

lemma example_LocalPath:
  "LocalPath exampleUpdater linuxEnv ''orbit'' ''stable'' = ''/opt/orbit/bin/orbit/linux/stable/orbit''"
  by code_simp

lemma example_RepoPath:
  "RepoPath exampleUpdater linuxEnv ''orbit'' ''stable'' = ''orbit/linux/stable/orbit''"
  by code_simp

lemma example_tmpPath:
  "tmpPath exampleUpdater linuxEnv ''/opt/orbit/bin/orbit/linux/stable/orbit'' = ''/opt/orbit/staging/orbit''"
  by code_simp

lemma example_stagingPath: "stagingPath exampleUpdater linuxEnv = ''/opt/orbit/staging''"
  by code_simp

lemma example_Dir:
  "filepath_Dir ''linux'' ''/opt/orbit/bin/orbit/linux/stable/orbit'' = ''/opt/orbit/bin/orbit/linux/stable''"
  by code_simp

text \<open>
  On Windows the separators are written as backslashes, and a root directory that is a
  drive alone is not followed by a separator.
\<close>

lemma example_LocalPath_windows:
  "LocalPath windowsUpdater windowsEnv ''orbit'' ''stable'' =
     ''C:'' @ [CHR 0x5C] @ ''orbit'' @ [CHR 0x5C] @ ''bin'' @ [CHR 0x5C] @ ''orbit'' @ [CHR 0x5C] @
     ''windows'' @ [CHR 0x5C] @ ''stable'' @ [CHR 0x5C] @ ''orbit.exe''"
  by code_simp

lemma example_tmpPath_windows:
  "tmpPath windowsUpdater windowsEnv ''C:/orbit/bin/orbit/windows/stable/orbit.exe'' =
     ''C:'' @ [CHR 0x5C] @ ''orbit'' @ [CHR 0x5C] @ ''staging'' @ [CHR 0x5C] @ ''orbit.exe''"
  by code_simp

lemma example_LocalPath_drive:
  "LocalPath (windowsUpdater\<lparr>opt := (opt windowsUpdater)\<lparr>RootDirectory := ''C:''\<rparr>\<rparr>)
       windowsEnv ''orbit'' ''stable'' =
     ''C:bin'' @ [CHR 0x5C] @ ''orbit'' @ [CHR 0x5C] @ ''windows'' @ [CHR 0x5C] @ ''stable'' @
     [CHR 0x5C] @ ''orbit.exe''"
  by code_simp

section \<open>Metadata refresh\<close>

text \<open>
  C4. \<^verbatim>\<open>UpdateMetadata\<close> returns nil exactly when the refresh of the TUF client succeeds or
  fails with an error whose cause is "already at the latest snapshot"; every other failure
  of the refresh comes back as an error, wrapped with the message \<^verbatim>\<open>update metadata\<close>, so
  that its cause is the cause of the refresh's error.
\<close>

theorem UpdateMetadata_nil_iff:
  "((UpdateMetadata u = None) =
      (client_Update (client u) = None \<or>
       (\<exists>err. client_Update (client u) = Some err \<and> IsLatestSnapshot (Cause err)))) \<and>
   (\<forall>err. client_Update (client u) = Some err \<and> \<not> IsLatestSnapshot (Cause err) \<longrightarrow>
      UpdateMetadata u = Some (Wrap err ''update metadata'') \<and>
      Cause (Wrap err ''update metadata'') = Cause err)"
  by (auto simp: UpdateMetadata_def split: option.splits)

theorem UpdateMetadata_nil_iff_witness:
  "UpdateMetadata (exampleUpdater\<lparr>client := exampleClient\<lparr>client_Update :=
       Some (Errorf ''connection refused'')\<rparr>\<rparr>)
     = Some (Wrap (Errorf ''connection refused'') ''update metadata'') \<and>
   UpdateMetadata (exampleUpdater\<lparr>client := exampleClient\<lparr>client_Update :=
       Some (ErrLatestSnapshot 7)\<rparr>\<rparr>) = None \<and>
   UpdateMetadata exampleUpdater = None"
  using
    UpdateMetadata_nil_iff [of "exampleUpdater\<lparr>client := exampleClient\<lparr>client_Update :=
       Some (Errorf ''connection refused'')\<rparr>\<rparr>"]
    UpdateMetadata_nil_iff [of "exampleUpdater\<lparr>client := exampleClient\<lparr>client_Update :=
       Some (ErrLatestSnapshot 7)\<rparr>\<rparr>"]
    UpdateMetadata_nil_iff [of exampleUpdater]
  by (simp add: exampleUpdater_def exampleClient_def)

section \<open>Get\<close>

text \<open>
  C7. When \<^verbatim>\<open>os.Stat\<close> finds something at the local path that is not a regular file,
  \<^verbatim>\<open>Get\<close> returns the empty path and an error (for a non-empty target and channel, the
  error that names the path), and the world is exactly as before: nothing was looked up,
  fetched, executed or written, so \<^verbatim>\<open>Download\<close> was not invoked.
\<close>

theorem Get_not_regular:
  assumes "Stat e (LocalPath u e target channel) w = Inr st" and "\<not> IsRegular st"
  shows "fst (Get u e target channel w) = w \<and>
         fst (snd (Get u e target channel w)) = [] \<and>
         snd (snd (Get u e target channel w)) \<noteq> None \<and>
         (target \<noteq> [] \<and> channel \<noteq> [] \<longrightarrow>
            snd (snd (Get u e target channel w)) =
              Some (Errorf (''expected '' @ LocalPath u e target channel @ '' to be regular file'')))"
  using assms by (simp add: Get_def)

theorem Get_not_regular_witness:
  "Get exampleUpdater linuxEnv ''orbit'' ''stable''
       (oneDirectory ''/opt/orbit/bin/orbit/linux/stable/orbit'')
     = (oneDirectory ''/opt/orbit/bin/orbit/linux/stable/orbit'', [],
        Some (Errorf ''expected /opt/orbit/bin/orbit/linux/stable/orbit to be regular file''))"
proof -
  let ?w = "oneDirectory ''/opt/orbit/bin/orbit/linux/stable/orbit''"
  have st: "Stat linuxEnv (LocalPath exampleUpdater linuxEnv ''orbit'' ''stable'') ?w = Inr Directory"
    unfolding example_LocalPath
    by (simp add: Stat_def linuxEnv_def oneDirectory_def emptyWorld_def)
  have "\<not> IsRegular Directory"
    by simp
  from Get_not_regular[OF st this] show ?thesis
    by (simp add: example_LocalPath prod_eq_iff)
qed

text \<open>
  C8. For a non-empty target and channel, when \<^verbatim>\<open>os.Stat\<close> of the local path fails, for
  whatever reason, \<^verbatim>\<open>Get\<close> is \<^verbatim>\<open>Download\<close> on the world as it was: it returns the local
  path with the error (or nil) of that download, and no metadata is looked up.
\<close>

theorem Get_stat_failure:
  assumes "target \<noteq> []" and "channel \<noteq> []"
    and "Stat e (LocalPath u e target channel) w = Inl err"
  shows "Get u e target channel w =
           (fst (Download u e (RepoPath u e target channel) (LocalPath u e target channel) w),
            LocalPath u e target channel,
            snd (Download u e (RepoPath u e target channel) (LocalPath u e target channel) w)) \<and>
         lookups (fst (Get u e target channel w)) = lookups w"
proof -
  let ?d = "Download u e (RepoPath u e target channel) (LocalPath u e target channel) w"
  have g: "Get u e target channel w = (fst ?d, LocalPath u e target channel, snd ?d)"
    using assms by (simp add: Get_def Let_def split: prod.splits)
  have "lookups (fst ?d) = lookups w"
    using Download_logs[of u e _ _ w "fst ?d" "snd ?d"] by simp
  with g show ?thesis
    by simp
qed

theorem Get_stat_failure_witness:
  "Stat linuxEnv (LocalPath exampleUpdater linuxEnv ''orbit'' ''stable'') emptyWorld
     = Inl ErrNotExist \<and>
   snd (Get exampleUpdater linuxEnv ''orbit'' ''stable'' emptyWorld)
     = (''/opt/orbit/bin/orbit/linux/stable/orbit'', None) \<and>
   lookups (fst (Get exampleUpdater linuxEnv ''orbit'' ''stable'' emptyWorld)) = [] \<and>
   Stat (linuxEnv\<lparr>fails := (\<lambda>s. s = AtStat)\<rparr>)
        (LocalPath exampleUpdater (linuxEnv\<lparr>fails := (\<lambda>s. s = AtStat)\<rparr>) ''orbit'' ''stable'')
        (oneFile ''/opt/orbit/bin/orbit/linux/stable/orbit'' ''good'')
     = Inl (Errorf ''stat'') \<and>
   lookups (fst (Get exampleUpdater (linuxEnv\<lparr>fails := (\<lambda>s. s = AtStat)\<rparr>) ''orbit'' ''stable''
                   (oneFile ''/opt/orbit/bin/orbit/linux/stable/orbit'' ''good''))) = [] \<and>
   fetches (fst (Get exampleUpdater (linuxEnv\<lparr>fails := (\<lambda>s. s = AtStat)\<rparr>) ''orbit'' ''stable''
                   (oneFile ''/opt/orbit/bin/orbit/linux/stable/orbit'' ''good'')))
     = [''orbit/linux/stable/orbit'']"
proof -
  have st: "Stat linuxEnv (LocalPath exampleUpdater linuxEnv ''orbit'' ''stable'') emptyWorld
              = Inl ErrNotExist"
    by code_simp
  have d: "snd (Download exampleUpdater linuxEnv ''orbit/linux/stable/orbit''
                  ''/opt/orbit/bin/orbit/linux/stable/orbit'' emptyWorld) = None"
    by code_simp
  have "''orbit'' \<noteq> []" and "''stable'' \<noteq> []"
    by simp_all
  note ne = this
  note g = Get_stat_failure[OF ne st, unfolded example_LocalPath example_RepoPath]
  from g d have g1: "snd (Get exampleUpdater linuxEnv ''orbit'' ''stable'' emptyWorld)
                       = (''/opt/orbit/bin/orbit/linux/stable/orbit'', None)"
    by simp
  from g have g2: "lookups (fst (Get exampleUpdater linuxEnv ''orbit'' ''stable'' emptyWorld))
                     = lookups emptyWorld"
    by (rule conjunct2)
  have e: "lookups emptyWorld = []"
    by (simp add: emptyWorld_def)
  let ?e = "linuxEnv\<lparr>fails := (\<lambda>s. s = AtStat)\<rparr>"
  let ?w = "oneFile ''/opt/orbit/bin/orbit/linux/stable/orbit'' ''good''"
  have sf: "Stat ?e (LocalPath exampleUpdater ?e ''orbit'' ''stable'') ?w = Inl (Errorf ''stat'')"
    by code_simp
  from Get_stat_failure[OF ne sf]
  have h2: "lookups (fst (Get exampleUpdater ?e ''orbit'' ''stable'' ?w)) = lookups ?w"
    by (rule conjunct2)
  have l: "lookups ?w = []"
    by (simp add: oneFile_def emptyWorld_def)
  have f: "fetches (fst (Get exampleUpdater ?e ''orbit'' ''stable'' ?w)) = [''orbit/linux/stable/orbit'']"
    by code_simp
  from st g1 g2 e sf h2 l f show ?thesis
    by simp
qed

text \<open>
  C10. For a non-empty target and channel: when \<^verbatim>\<open>Get\<close> downloads because
  \<^verbatim>\<open>os.Stat\<close> failed, or because the hash check of the regular file failed, and the
  download returns an error, \<^verbatim>\<open>Get\<close> returns the local path, which is never empty,
  together with that error; when the metadata lookup fails, \<^verbatim>\<open>Get\<close> returns the empty
  path together with the error of the lookup.
\<close>

theorem Get_error_results:
  assumes "target \<noteq> []" and "channel \<noteq> []"
  shows "(\<forall>serr w' err.
            Stat e (LocalPath u e target channel) w = Inl serr \<and>
            Download u e (RepoPath u e target channel) (LocalPath u e target channel) w
              = (w', Some err) \<longrightarrow>
            Get u e target channel w = (w', LocalPath u e target channel, Some err) \<and>
            LocalPath u e target channel \<noteq> []) \<and>
         (\<forall>st meta herr w' err.
            Stat e (LocalPath u e target channel) w = Inr st \<and> IsRegular st \<and>
            client_Target (client u) (RepoPath u e target channel) = Inr meta \<and>
            CheckFileHash e meta (LocalPath u e target channel) w = Some herr \<and>
            Download u e (RepoPath u e target channel) (LocalPath u e target channel)
              (w\<lparr>lookups := lookups w @ [RepoPath u e target channel]\<rparr>) = (w', Some err) \<longrightarrow>
            Get u e target channel w = (w', LocalPath u e target channel, Some err) \<and>
            LocalPath u e target channel \<noteq> []) \<and>
         (\<forall>st terr.
            Stat e (LocalPath u e target channel) w = Inr st \<and> IsRegular st \<and>
            client_Target (client u) (RepoPath u e target channel) = Inl terr \<longrightarrow>
            Get u e target channel w =
              (w\<lparr>lookups := lookups w @ [RepoPath u e target channel]\<rparr>, [],
               Some (Wrap terr (''lookup '' @ target @ ''@'' @ channel))))"
proof -
  have hash: "CheckFileHash e meta p (w\<lparr>lookups := l\<rparr>) = CheckFileHash e meta p w" for meta p l
    by (simp add: CheckFileHash_def)
  show ?thesis
    using assms by (auto simp: Get_def Lookup_def Let_def hash LocalPath_nonempty)
qed

theorem Get_error_results_witness:
  "Get (exampleUpdater\<lparr>client := exampleClient\<lparr>client_Download :=
          (\<lambda>p. (''go'', Some (Errorf ''connection reset'')))\<rparr>\<rparr>)
       linuxEnv ''orbit'' ''stable'' emptyWorld
     = (fst (Download (exampleUpdater\<lparr>client := exampleClient\<lparr>client_Download :=
               (\<lambda>p. (''go'', Some (Errorf ''connection reset'')))\<rparr>\<rparr>)
             linuxEnv ''orbit/linux/stable/orbit'' ''/opt/orbit/bin/orbit/linux/stable/orbit''
             emptyWorld),
        ''/opt/orbit/bin/orbit/linux/stable/orbit'',
        Some (Wrap (Errorf ''connection reset'') ''download target orbit/linux/stable/orbit'')) \<and>
   Get exampleUpdater linuxEnv ''orbit'' ''beta''
       (oneFile ''/opt/orbit/bin/orbit/linux/beta/orbit'' ''good'')
     = ((oneFile ''/opt/orbit/bin/orbit/linux/beta/orbit'' ''good'')
          \<lparr>lookups := [''orbit/linux/beta/orbit'']\<rparr>, [],
        Some (Wrap (Errorf ''unknown target'') ''lookup orbit@beta'')) \<and>
   snd (Get (exampleUpdater\<lparr>client := exampleClient\<lparr>client_Download :=
          (\<lambda>p. (''go'', Some (Errorf ''connection reset'')))\<rparr>\<rparr>)
       linuxEnv ''orbit'' ''stable'' (oneFile ''/opt/orbit/bin/orbit/linux/stable/orbit'' ''bad!''))
     = (''/opt/orbit/bin/orbit/linux/stable/orbit'',
        Some (Wrap (Errorf ''connection reset'') ''download target orbit/linux/stable/orbit''))"
proof -
  let ?u = "exampleUpdater\<lparr>client := exampleClient\<lparr>client_Download :=
              (\<lambda>p. (''go'', Some (Errorf ''connection reset'')))\<rparr>\<rparr>"
  let ?lp = "''/opt/orbit/bin/orbit/linux/stable/orbit''"
  let ?rp = "''orbit/linux/stable/orbit''"
  let ?w = "oneFile ''/opt/orbit/bin/orbit/linux/beta/orbit'' ''good''"
  have ne: "''orbit'' \<noteq> []" "''stable'' \<noteq> []" "''beta'' \<noteq> []"
    by simp_all
  have lp: "LocalPath ?u linuxEnv ''orbit'' ''stable'' = ?lp"
    and rp: "RepoPath ?u linuxEnv ''orbit'' ''stable'' = ?rp"
    by code_simp+
  have st: "Stat linuxEnv ?lp emptyWorld = Inl ErrNotExist"
    by code_simp
  have d: "snd (Download ?u linuxEnv ?rp ?lp emptyWorld)
             = Some (Wrap (Errorf ''connection reset'') ''download target orbit/linux/stable/orbit'')"
    by code_simp
  note t = Get_error_results[OF ne(1,2), where u = ?u and e = linuxEnv, unfolded lp rp]
  from d have "Download ?u linuxEnv ?rp ?lp emptyWorld
                 = (fst (Download ?u linuxEnv ?rp ?lp emptyWorld),
                    Some (Wrap (Errorf ''connection reset'')
                            ''download target orbit/linux/stable/orbit''))"
    by (simp add: prod_eq_iff)
  from t[THEN conjunct1, rule_format, OF conjI[OF st this]]
  have a: "Get ?u linuxEnv ''orbit'' ''stable'' emptyWorld
             = (fst (Download ?u linuxEnv ?rp ?lp emptyWorld), ?lp,
                Some (Wrap (Errorf ''connection reset'') ''download target orbit/linux/stable/orbit''))"
    by simp
  have lpb: "LocalPath exampleUpdater linuxEnv ''orbit'' ''beta'' = ''/opt/orbit/bin/orbit/linux/beta/orbit''"
    and rpb: "RepoPath exampleUpdater linuxEnv ''orbit'' ''beta'' = ''orbit/linux/beta/orbit''"
    by code_simp+
  have stb: "Stat linuxEnv ''/opt/orbit/bin/orbit/linux/beta/orbit'' ?w = Inr (Regular ''good'' 493)"
    by code_simp
  have tb: "client_Target (client exampleUpdater) ''orbit/linux/beta/orbit'' = Inl (Errorf ''unknown target'')"
    by code_simp
  have reg: "IsRegular (Regular bytes 493)" for bytes
    by simp
  from Get_error_results[OF ne(1,3), where u = exampleUpdater and e = linuxEnv,
      unfolded lpb rpb, THEN conjunct2, THEN conjunct2, rule_format,
      OF conjI[OF stb conjI[OF reg tb]]]
  have b: "Get exampleUpdater linuxEnv ''orbit'' ''beta'' ?w
             = (?w\<lparr>lookups := lookups ?w @ [''orbit/linux/beta/orbit'']\<rparr>, [],
                Some (Wrap (Errorf ''unknown target'') (''lookup '' @ ''orbit'' @ ''@'' @ ''beta'')))"
    by simp
  let ?wm = "oneFile ?lp ''bad!''"
  let ?meta = "\<lparr>Length = 4, Hashes = [(''sha256'', ''sha256:good'')]\<rparr>"
  have stm: "Stat linuxEnv ?lp ?wm = Inr (Regular ''bad!'' 493)"
    by code_simp
  have tm: "client_Target (client ?u) ?rp = Inr ?meta"
    by code_simp
  have hm: "CheckFileHash linuxEnv ?meta ?lp ?wm = Some (Errorf ''hash mismatch'')"
    by code_simp
  have dm: "snd (Download ?u linuxEnv ?rp ?lp (?wm\<lparr>lookups := lookups ?wm @ [?rp]\<rparr>))
             = Some (Wrap (Errorf ''connection reset'') ''download target orbit/linux/stable/orbit'')"
    by code_simp
  from dm have "Download ?u linuxEnv ?rp ?lp (?wm\<lparr>lookups := lookups ?wm @ [?rp]\<rparr>)
                  = (fst (Download ?u linuxEnv ?rp ?lp (?wm\<lparr>lookups := lookups ?wm @ [?rp]\<rparr>)),
                     Some (Wrap (Errorf ''connection reset'')
                             ''download target orbit/linux/stable/orbit''))"
    by (simp add: prod_eq_iff)
  from t[THEN conjunct2, THEN conjunct1, rule_format,
      OF conjI[OF stm conjI[OF reg conjI[OF tm conjI[OF hm this]]]]]
  have c: "snd (Get ?u linuxEnv ''orbit'' ''stable'' ?wm)
             = (?lp, Some (Wrap (Errorf ''connection reset'') ''download target orbit/linux/stable/orbit''))"
    by simp
  have "lookups ?w = []"
    by (simp add: oneFile_def emptyWorld_def)
  with a b c show ?thesis
    by simp
qed

text \<open>
  C3, as the code has it. For a non-empty target and channel: when \<^verbatim>\<open>os.Stat\<close> finds a
  regular file at the local path, the lookup resolves and the bytes of the file match the
  digest of every algorithm of the metadata, \<^verbatim>\<open>Get\<close> returns the local path and nil; it
  logs the lookup and nothing else, so nothing is fetched and no file changes.
  Consequently, after a call of \<^verbatim>\<open>Get\<close> that returned nil, a second call with the same
  collaborators (whose \<^verbatim>\<open>os.Stat\<close> does not fail) returns the path without a fetch, and the
  first call fetched at most once: provided the staging path was free before the first
  call, the staging file is neither the local path nor its \<^verbatim>\<open>.old\<close> neighbour, and the
  bytes the TUF client delivers with success match the metadata it resolves. Two calls of
  which the first returns an error may each fetch.
\<close>

theorem Get_cached:
  assumes "target \<noteq> []" and "channel \<noteq> []"
  shows "(\<forall>bytes m meta.
            Stat e (LocalPath u e target channel) w = Inr (Regular bytes m) \<and>
            client_Target (client u) (RepoPath u e target channel) = Inr meta \<and>
            list_all (\<lambda>(alg, h). hashOf e alg bytes = h) (Hashes meta) \<longrightarrow>
            Get u e target channel w =
              (w\<lparr>lookups := lookups w @ [RepoPath u e target channel]\<rparr>,
               LocalPath u e target channel, None)) \<and>
         (\<forall>w1 p f2.
            Get u e target channel w = (w1, p, None) \<and>
            files w (tmpPath u e (LocalPath u e target channel)) = None \<and>
            tmpPath u e (LocalPath u e target channel) \<noteq> LocalPath u e target channel \<and>
            tmpPath u e (LocalPath u e target channel) \<noteq> LocalPath u e target channel @ ''.old'' \<and>
            (\<forall>bytes. client_Download (client u) (RepoPath u e target channel) = (bytes, None) \<longrightarrow>
               (\<exists>meta. client_Target (client u) (RepoPath u e target channel) = Inr meta \<and>
                       list_all (\<lambda>(alg, h). hashOf e alg bytes = h) (Hashes meta))) \<and>
            \<not> f2 AtStat \<longrightarrow>
            Get u (e\<lparr>fails := f2\<rparr>) target channel w1 =
              (w1\<lparr>lookups := lookups w1 @ [RepoPath u e target channel]\<rparr>,
               LocalPath u e target channel, None) \<and>
            length (fetches w1) \<le> Suc (length (fetches w)))"
proof (rule conjI; intro allI impI)
  fix bytes m meta
  assume "Stat e (LocalPath u e target channel) w = Inr (Regular bytes m) \<and>
          client_Target (client u) (RepoPath u e target channel) = Inr meta \<and>
          list_all (\<lambda>(alg, h). hashOf e alg bytes = h) (Hashes meta)"
  then show "Get u e target channel w =
               (w\<lparr>lookups := lookups w @ [RepoPath u e target channel]\<rparr>,
                LocalPath u e target channel, None)"
    using Get_hit[OF assms] by blast
next
  fix w1 p f2
  let ?lp = "LocalPath u e target channel"
  let ?rp = "RepoPath u e target channel"
  let ?tmp = "tmpPath u e ?lp"
  let ?e2 = "e\<lparr>fails := f2\<rparr>"
  assume h: "Get u e target channel w = (w1, p, None) \<and> files w ?tmp = None \<and>
             ?tmp \<noteq> ?lp \<and> ?tmp \<noteq> ?lp @ ''.old'' \<and>
             (\<forall>bytes. client_Download (client u) ?rp = (bytes, None) \<longrightarrow>
                (\<exists>meta. client_Target (client u) ?rp = Inr meta \<and>
                        list_all (\<lambda>(alg, h). hashOf e alg bytes = h) (Hashes meta))) \<and>
             \<not> f2 AtStat"
  then have g: "Get u e target channel w = (w1, p, None)" and free: "files w ?tmp = None"
    and apart: "?tmp \<noteq> ?lp" "?tmp \<noteq> ?lp @ ''.old''" and stat2: "\<not> f2 AtStat"
    and contract: "\<And>bytes. client_Download (client u) ?rp = (bytes, None) \<Longrightarrow>
                     \<exists>meta. client_Target (client u) ?rp = Inr meta \<and>
                            list_all (\<lambda>(alg, h). hashOf e alg bytes = h) (Hashes meta)"
    by blast+
  have second: "Get u ?e2 target channel w1 = (w1\<lparr>lookups := lookups w1 @ [?rp]\<rparr>, ?lp, None)"
    if "fileAt w1 ?lp = Some bytes" and "client_Target (client u) ?rp = Inr meta"
      and "list_all (\<lambda>(alg, h). hashOf e alg bytes = h) (Hashes meta)" for bytes meta
  proof -
    from Stat_regular[where e = e and f = f2, OF that(1) stat2]
    obtain m where "Stat ?e2 ?lp w1 = Inr (Regular bytes m)"
      by blast
    with Get_hit[OF assms, of ?e2 u w1 bytes m meta] that(2,3) show ?thesis
      by (simp add: fails_irrelevant)
  qed
  have downloaded: "Get u ?e2 target channel w1 = (w1\<lparr>lookups := lookups w1 @ [?rp]\<rparr>, ?lp, None) \<and>
                    length (fetches w1) \<le> Suc (length (fetches w0))"
    if "Download u e ?rp ?lp w0 = (w1, None)" and "files w0 ?tmp = None" for w0
  proof -
    from Download_success[OF that apart]
    obtain bytes where b: "client_Download (client u) ?rp = (bytes, None)"
      and "fileAt w1 ?lp = Some bytes" and "fetches w1 = fetches w0 @ [?rp]"
      by blast
    with contract[OF b] second show ?thesis
      by auto
  qed
  show "Get u ?e2 target channel w1 = (w1\<lparr>lookups := lookups w1 @ [?rp]\<rparr>, ?lp, None) \<and>
        length (fetches w1) \<le> Suc (length (fetches w))"
  proof (cases "Stat e ?lp w")
    case (Inl serr)
    with g assms have "Download u e ?rp ?lp w = (w1, None)"
      by (simp add: Get_def Let_def split: prod.splits)
    from downloaded[OF this free] show ?thesis .
  next
    case (Inr st)
    with g assms have reg: "IsRegular st"
      by (auto simp: Get_def Let_def split: if_splits)
    then obtain bytes m where st: "st = Regular bytes m"
      by (cases st) auto
    with Inr have reg_file: "files w ?lp = Some (Regular bytes m)"
      by (auto simp: Stat_def split: if_splits option.splits)
    let ?w0 = "w\<lparr>lookups := lookups w @ [?rp]\<rparr>"
    from g assms Inr reg obtain meta where t: "client_Target (client u) ?rp = Inr meta"
      by (cases "client_Target (client u) ?rp") (auto simp: Get_def Let_def Lookup_def)
    show ?thesis
    proof (cases "CheckFileHash e meta ?lp ?w0")
      case None
      with g assms Inr reg t have w1: "w1 = ?w0"
        by (simp add: Get_def Let_def Lookup_def)
      from None reg_file have "list_all (\<lambda>(alg, h). hashOf e alg bytes = h) (Hashes meta)"
        by (auto simp: CheckFileHash_def split: if_splits)
      moreover have "fileAt w1 ?lp = Some bytes"
        using reg_file w1 by (simp add: fileAt_def)
      ultimately show ?thesis
        using second t w1 by simp
    next
      case (Some herr)
      with g assms Inr reg t have "Download u e ?rp ?lp ?w0 = (w1, None)"
        by (simp add: Get_def Let_def Lookup_def split: prod.splits)
      from downloaded[OF this] free show ?thesis
        by simp
    qed
  qed
qed

theorem Get_cached_witness:
  "Get exampleUpdater linuxEnv ''orbit'' ''stable''
       (oneFile ''/opt/orbit/bin/orbit/linux/stable/orbit'' ''good'')
     = ((oneFile ''/opt/orbit/bin/orbit/linux/stable/orbit'' ''good'')
          \<lparr>lookups := [''orbit/linux/stable/orbit'']\<rparr>,
        ''/opt/orbit/bin/orbit/linux/stable/orbit'', None) \<and>
   snd (Get exampleUpdater linuxEnv ''orbit'' ''stable'' emptyWorld)
     = (''/opt/orbit/bin/orbit/linux/stable/orbit'', None) \<and>
   snd (Get exampleUpdater (linuxEnv\<lparr>fails := (\<lambda>s. False)\<rparr>) ''orbit'' ''stable''
          (fst (Get exampleUpdater linuxEnv ''orbit'' ''stable'' emptyWorld)))
     = (''/opt/orbit/bin/orbit/linux/stable/orbit'', None) \<and>
   fetches (fst (Get exampleUpdater (linuxEnv\<lparr>fails := (\<lambda>s. False)\<rparr>) ''orbit'' ''stable''
                   (fst (Get exampleUpdater linuxEnv ''orbit'' ''stable'' emptyWorld))))
     = fetches (fst (Get exampleUpdater linuxEnv ''orbit'' ''stable'' emptyWorld)) \<and>
   length (fetches (fst (Get exampleUpdater linuxEnv ''orbit'' ''stable'' emptyWorld))) \<le> 1"
proof -
  let ?lp = "''/opt/orbit/bin/orbit/linux/stable/orbit''"
  let ?rp = "''orbit/linux/stable/orbit''"
  let ?meta = "\<lparr>Length = 4, Hashes = [(''sha256'', ''sha256:good'')]\<rparr>"
  let ?g = "Get exampleUpdater linuxEnv ''orbit'' ''stable'' emptyWorld"
  have ne: "''orbit'' \<noteq> []" "''stable'' \<noteq> []"
    by simp_all
  note t = Get_cached[OF ne, where u = exampleUpdater and e = linuxEnv,
      unfolded example_LocalPath example_RepoPath example_tmpPath]
  have hit: "Stat linuxEnv ?lp (oneFile ?lp ''good'') = Inr (Regular ''good'' 493) \<and>
             client_Target (client exampleUpdater) ?rp = Inr ?meta \<and>
             list_all (\<lambda>(alg, h). hashOf linuxEnv alg ''good'' = h) (Hashes ?meta)"
    by code_simp
  have "lookups (oneFile ?lp ''good'') = []"
    by (simp add: oneFile_def emptyWorld_def)
  with t[THEN conjunct1, rule_format, OF hit]
  have a: "Get exampleUpdater linuxEnv ''orbit'' ''stable'' (oneFile ?lp ''good'')
             = ((oneFile ?lp ''good'')\<lparr>lookups := [?rp]\<rparr>, ?lp, None)"
    by simp
  have first: "snd ?g = (?lp, None)"
    by code_simp
  then have g: "?g = (fst ?g, ?lp, None)"
    by (simp add: prod_eq_iff)
  have free: "files emptyWorld ''/opt/orbit/staging/orbit'' = None"
    by (simp add: emptyWorld_def)
  have apart: "''/opt/orbit/staging/orbit'' \<noteq> ?lp" "''/opt/orbit/staging/orbit'' \<noteq> ?lp @ ''.old''"
    by simp_all
  have contract: "\<forall>bytes. client_Download (client exampleUpdater) ?rp = (bytes, None) \<longrightarrow>
                    (\<exists>meta. client_Target (client exampleUpdater) ?rp = Inr meta \<and>
                            list_all (\<lambda>(alg, h). hashOf linuxEnv alg bytes = h) (Hashes meta))"
    by (simp add: exampleUpdater_def exampleClient_def linuxEnv_def)
  have "\<not> (\<lambda>s::site. False) AtStat"
    by simp
  from t[THEN conjunct2, rule_format,
      OF conjI[OF g conjI[OF free conjI[OF apart(1) conjI[OF apart(2) conjI[OF contract this]]]]]]
  have b: "Get exampleUpdater (linuxEnv\<lparr>fails := (\<lambda>s. False)\<rparr>) ''orbit'' ''stable'' (fst ?g)
             = ((fst ?g)\<lparr>lookups := lookups (fst ?g) @ [?rp]\<rparr>, ?lp, None)"
    and c: "length (fetches (fst ?g)) \<le> Suc (length (fetches emptyWorld))"
    by simp_all
  have "fetches emptyWorld = []"
    by (simp add: emptyWorld_def)
  with a first b c show ?thesis
    by simp
qed

text \<open>
  The claim as it is written fails when the first call fails: a target whose bytes are the
  verified ones but do not pass the smoke test is fetched by every call of \<^verbatim>\<open>Get\<close>, with
  the metadata unchanged.
\<close>

theorem Get_twice_fetches_twice:
  "snd (snd (Get brokenUpdater linuxEnv ''orbit'' ''stable'' emptyWorld)) \<noteq> None \<and>
   fetches (fst (Get brokenUpdater linuxEnv ''orbit'' ''stable'' emptyWorld))
     = [''orbit/linux/stable/orbit''] \<and>
   fetches (fst (Get brokenUpdater linuxEnv ''orbit'' ''stable''
                   (fst (Get brokenUpdater linuxEnv ''orbit'' ''stable'' emptyWorld))))
     = [''orbit/linux/stable/orbit'', ''orbit/linux/stable/orbit'']"
  by code_simp

section \<open>Paths of a target\<close>

text \<open>
  C9, as the code has it. \<^verbatim>\<open>RepoPath\<close> and \<^verbatim>\<open>LocalPath\<close> are functions of the target, the
  configured platform, the channel, the executable extension and the root directory. When
  target, platform, channel and the target with its extension are plain names (not empty,
  not \<^verbatim>\<open>.\<close> or \<^verbatim>\<open>..\<close>, without a separator), \<^verbatim>\<open>RepoPath\<close> is
  \<^verbatim>\<open><target>/<platform>/<channel>/<target><ext>\<close>; when moreover the program does not run
  on Windows and the root directory is a relative or absolute path of plain names,
  \<^verbatim>\<open>LocalPath\<close> is \<^verbatim>\<open><root>/bin/<target>/<platform>/<channel>/<target><ext>\<close>. For other
  arguments both are the cleaned join of \<^verbatim>\<open>path.Join\<close> and \<^verbatim>\<open>filepath.Join\<close>; on Windows
  \<^verbatim>\<open>filepath.Join\<close> writes backslashes and sets a volume name aside
  (\<open>example_LocalPath_windows\<close>, \<open>example_LocalPath_drive\<close> above).
\<close>

theorem RepoPath_LocalPath_plain:
  assumes "plainName target" and "plainName (Platform (opt u))" and "plainName channel"
    and "plainName (target @ ExecutableExtension e (Platform (opt u)))"
  shows "RepoPath u e target channel =
           target @ ''/'' @ Platform (opt u) @ ''/'' @ channel @ ''/'' @ target @
           ExecutableExtension e (Platform (opt u)) \<and>
         (\<forall>names pre.
            PlatformName e \<noteq> ''windows'' \<and>
            names \<noteq> [] \<and> list_all plainName names \<and> (pre = [] \<or> pre = ''/'') \<and>
            RootDirectory (opt u) = pre @ joinWith ''/'' names \<longrightarrow>
            LocalPath u e target channel =
              RootDirectory (opt u) @ ''/'' @ ''bin'' @ ''/'' @ target @ ''/'' @
              Platform (opt u) @ ''/'' @ channel @ ''/'' @ target @
              ExecutableExtension e (Platform (opt u)))"
proof (intro conjI allI impI)
  show "RepoPath u e target channel =
          target @ ''/'' @ Platform (opt u) @ ''/'' @ channel @ ''/'' @ target @
          ExecutableExtension e (Platform (opt u))"
    by (rule RepoPath_plain[OF assms])
next
  fix names pre
  assume h: "PlatformName e \<noteq> ''windows'' \<and>
             names \<noteq> [] \<and> list_all plainName names \<and> (pre = [] \<or> pre = ''/'') \<and>
             RootDirectory (opt u) = pre @ joinWith ''/'' names"
  then have sep: "Separator (PlatformName e) = CHR ''/''"
    by (simp add: Separator_def)
  from h sep have
    "names \<noteq> []" "list_all plainName names" "pre = [] \<or> pre = [Separator (PlatformName e)]"
    "RootDirectory (opt u) = pre @ joinWith [Separator (PlatformName e)] names"
    "PlatformName e \<noteq> ''windows''"
    by simp_all
  from LocalPath_plain[OF assms this] sep
  show "LocalPath u e target channel =
          RootDirectory (opt u) @ ''/'' @ ''bin'' @ ''/'' @ target @ ''/'' @
          Platform (opt u) @ ''/'' @ channel @ ''/'' @ target @
          ExecutableExtension e (Platform (opt u))"
    by simp
qed

theorem RepoPath_LocalPath_plain_witness:
  "RepoPath exampleUpdater linuxEnv ''orbit'' ''stable'' = ''orbit/linux/stable/orbit'' \<and>
   LocalPath exampleUpdater linuxEnv ''orbit'' ''stable''
     = ''/opt/orbit/bin/orbit/linux/stable/orbit'' \<and>
   RepoPath windowsUpdater windowsEnv ''orbit'' ''stable'' = ''orbit/windows/stable/orbit.exe''"
proof -
  have p: "plainName ''orbit''" "plainName (Platform (opt exampleUpdater))" "plainName ''stable''"
    "plainName (''orbit'' @ ExecutableExtension linuxEnv (Platform (opt exampleUpdater)))"
    by code_simp+
  have q: "plainName ''orbit''" "plainName (Platform (opt windowsUpdater))" "plainName ''stable''"
    "plainName (''orbit'' @ ExecutableExtension windowsEnv (Platform (opt windowsUpdater)))"
    by code_simp+
  have r: "PlatformName linuxEnv \<noteq> ''windows'' \<and>
           [''opt'', ''orbit''] \<noteq> [] \<and> list_all plainName [''opt'', ''orbit''] \<and>
           (''/'' = [] \<or> ''/'' = ''/'') \<and>
           RootDirectory (opt exampleUpdater) = ''/'' @ joinWith ''/'' [''opt'', ''orbit'']"
    by code_simp
  have v: "Platform (opt exampleUpdater) = ''linux''" "RootDirectory (opt exampleUpdater) = ''/opt/orbit''"
    "ExecutableExtension linuxEnv ''linux'' = []"
    "Platform (opt windowsUpdater) = ''windows''" "ExecutableExtension windowsEnv ''windows'' = ''.exe''"
    by code_simp+
  note a = RepoPath_LocalPath_plain[OF p]
  from a have a1: "RepoPath exampleUpdater linuxEnv ''orbit'' ''stable'' = ''orbit/linux/stable/orbit''"
    by (simp add: v)
  from a[THEN conjunct2, rule_format, OF r]
  have a2: "LocalPath exampleUpdater linuxEnv ''orbit'' ''stable''
              = ''/opt/orbit/bin/orbit/linux/stable/orbit''"
    by (simp add: v)
  from RepoPath_LocalPath_plain[OF q]
  have b: "RepoPath windowsUpdater windowsEnv ''orbit'' ''stable'' = ''orbit/windows/stable/orbit.exe''"
    by (simp add: v)
  from a1 a2 b show ?thesis
    by simp
qed

text \<open>
  The claim as it is written fails where an argument is not a plain name: \<^verbatim>\<open>path.Join\<close>
  drops an empty channel, so the repository path has three elements, not four.
\<close>

theorem RepoPath_empty_channel:
  "RepoPath exampleUpdater linuxEnv ''orbit'' [] \<noteq>
     ''orbit'' @ ''/'' @ Platform (opt exampleUpdater) @ ''/'' @ [] @ ''/'' @ ''orbit'' @
     ExecutableExtension linuxEnv (Platform (opt exampleUpdater)) \<and>
   RepoPath exampleUpdater linuxEnv ''orbit'' [] = ''orbit/linux/orbit''"
  by code_simp

section \<open>Download\<close>

text \<open>
  C1, as the code has it. When \<^verbatim>\<open>Download\<close> returns an error and the destination is not
  the staging file itself, the bytes at the destination (or their absence) are what they
  were before the call, with one exception: on Windows, when the final rename fails after
  the old file was renamed to \<^verbatim>\<open>.old\<close>, nothing is left at the destination. The staging
  file is gone afterwards; only a call that failed before it opened the staging file, and
  so fetched nothing, leaves at the staging path the bytes that were there before.
\<close>

theorem Download_failure:
  assumes "Download u e repoPath localPath w = (w', Some err)"
    and "localPath \<noteq> tmpPath u e localPath"
  shows "(fileAt w' localPath = fileAt w localPath \<or>
          (PlatformName e = ''windows'' \<and> (\<exists>err0. err = Wrap err0 ''move download'') \<and>
           fileAt w' localPath = None)) \<and>
         (files w' (tmpPath u e localPath) = None \<or>
          (fileAt w' (tmpPath u e localPath) = fileAt w (tmpPath u e localPath) \<and>
           fetches w' = fetches w))"
  using assms(1)
proof (cases rule: Download_cases)
  case (mkdir err)
  then show ?thesis by simp
next
  case (chmod w1 err)
  with MkdirAll_Inr[OF chmod(1)] show ?thesis by simp
next
  case (openf w1 err)
  with MkdirAll_Inr[OF openf(1)] show ?thesis by simp
next
  case (body w1 w3 w4)
  have "fileAt w3 localPath = fileAt w localPath"
    using MkdirAll_Inr[OF body(1)] OpenFile_Inr[OF body(2)] assms(2) by simp
  moreover have "fileAt w' localPath = fileAt w4 localPath"
    using body(4) assms(2) by (simp add: Remove_simps)
  moreover have "files w' (tmpPath u e localPath) = None"
    using body(4) by (simp add: Remove_simps)
  ultimately show ?thesis
    using DownloadBody_failure[OF body(3) assms(2)] by auto
qed

theorem Download_failure_witness:
  "snd (Download (exampleUpdater\<lparr>client := exampleClient\<lparr>client_Download :=
            (\<lambda>p. (''bad!'', None))\<rparr>\<rparr>) linuxEnv
          ''orbit/linux/stable/orbit'' ''/opt/orbit/bin/orbit/linux/stable/orbit''
          (oneFile ''/opt/orbit/bin/orbit/linux/stable/orbit'' ''v1''))
     = Some (Wrap (Errorf ''exit status 1'') ''exec new version: exec format error'') \<and>
   fileAt (fst (Download (exampleUpdater\<lparr>client := exampleClient\<lparr>client_Download :=
            (\<lambda>p. (''bad!'', None))\<rparr>\<rparr>) linuxEnv
          ''orbit/linux/stable/orbit'' ''/opt/orbit/bin/orbit/linux/stable/orbit''
          (oneFile ''/opt/orbit/bin/orbit/linux/stable/orbit'' ''v1'')))
       ''/opt/orbit/bin/orbit/linux/stable/orbit'' = Some ''v1'' \<and>
   files (fst (Download (exampleUpdater\<lparr>client := exampleClient\<lparr>client_Download :=
            (\<lambda>p. (''bad!'', None))\<rparr>\<rparr>) linuxEnv
          ''orbit/linux/stable/orbit'' ''/opt/orbit/bin/orbit/linux/stable/orbit''
          (oneFile ''/opt/orbit/bin/orbit/linux/stable/orbit'' ''v1'')))
       ''/opt/orbit/staging/orbit'' = None"
proof -
  let ?u = "exampleUpdater\<lparr>client := exampleClient\<lparr>client_Download := (\<lambda>p. (''bad!'', None))\<rparr>\<rparr>"
  let ?lp = "''/opt/orbit/bin/orbit/linux/stable/orbit''"
  let ?w = "oneFile ?lp ''v1''"
  let ?d = "Download ?u linuxEnv ''orbit/linux/stable/orbit'' ?lp ?w"
  let ?err = "Wrap (Errorf ''exit status 1'') ''exec new version: exec format error''"
  have r: "snd ?d = Some ?err"
    by code_simp
  then have d: "?d = (fst ?d, Some ?err)"
    by (simp add: prod_eq_iff)
  have tmp: "tmpPath ?u linuxEnv ?lp = ''/opt/orbit/staging/orbit''"
    by code_simp
  then have ne: "?lp \<noteq> tmpPath ?u linuxEnv ?lp"
    by simp
  have lin: "PlatformName linuxEnv \<noteq> ''windows''"
    by code_simp
  have before: "fileAt ?w ?lp = Some ''v1''" "fileAt ?w ''/opt/orbit/staging/orbit'' = None"
    "fetches ?w = []"
    by code_simp+
  have fetched: "fetches (fst ?d) = [''orbit/linux/stable/orbit'']"
    by code_simp
  from Download_failure[OF d ne] lin
  have "fileAt (fst ?d) ?lp = fileAt ?w ?lp" and
    "files (fst ?d) (tmpPath ?u linuxEnv ?lp) = None \<or>
     (fileAt (fst ?d) (tmpPath ?u linuxEnv ?lp) = fileAt ?w (tmpPath ?u linuxEnv ?lp) \<and>
      fetches (fst ?d) = fetches ?w)"
    by blast+
  with before fetched tmp r show ?thesis
    by simp
qed

text \<open>
  The claim as it is written fails on Windows: with a file at the destination and a final
  rename that fails, the download returns an error, nothing is left at the destination and
  the old bytes are at \<^verbatim>\<open>.old\<close>.
\<close>

theorem Download_windows_rename_failure:
  "snd (Download windowsUpdater (windowsEnv\<lparr>fails := (\<lambda>s. s = AtRenameNew)\<rparr>)
          ''orbit/windows/stable/orbit.exe'' ''C:/orbit/bin/orbit/windows/stable/orbit.exe''
          (oneFile ''C:/orbit/bin/orbit/windows/stable/orbit.exe'' ''v1''))
     = Some (Wrap (Errorf ''rename'') ''move download'') \<and>
   fileAt (oneFile ''C:/orbit/bin/orbit/windows/stable/orbit.exe'' ''v1'')
       ''C:/orbit/bin/orbit/windows/stable/orbit.exe'' = Some ''v1'' \<and>
   fileAt (fst (Download windowsUpdater (windowsEnv\<lparr>fails := (\<lambda>s. s = AtRenameNew)\<rparr>)
          ''orbit/windows/stable/orbit.exe'' ''C:/orbit/bin/orbit/windows/stable/orbit.exe''
          (oneFile ''C:/orbit/bin/orbit/windows/stable/orbit.exe'' ''v1'')))
       ''C:/orbit/bin/orbit/windows/stable/orbit.exe'' = None \<and>
   fileAt (fst (Download windowsUpdater (windowsEnv\<lparr>fails := (\<lambda>s. s = AtRenameNew)\<rparr>)
          ''orbit/windows/stable/orbit.exe'' ''C:/orbit/bin/orbit/windows/stable/orbit.exe''
          (oneFile ''C:/orbit/bin/orbit/windows/stable/orbit.exe'' ''v1'')))
       ''C:/orbit/bin/orbit/windows/stable/orbit.exe.old'' = Some ''v1''"
  by code_simp



text \<open>
  C2. The staging file is opened with \<^verbatim>\<open>os.O_CREATE|os.O_WRONLY\<close>, without
  \<^verbatim>\<open>os.O_TRUNC\<close>: a file that is already at the staging path keeps the bytes beyond those
  the download writes. Here the staging path holds nine stale bytes, the TUF client
  delivers and verifies the four bytes \<^verbatim>\<open>good\<close>, and the download succeeds and publishes
  nine bytes: the four new ones followed by five stale ones, a file that does not pass the
  hash check against the metadata of the target.
\<close>

theorem Download_keeps_stale_bytes:
  "client_Download (client exampleUpdater) ''orbit/linux/stable/orbit'' = (''good'', None) \<and>
   snd (Download exampleUpdater linuxEnv ''orbit/linux/stable/orbit''
          ''/opt/orbit/bin/orbit/linux/stable/orbit''
          (oneFile ''/opt/orbit/staging/orbit'' ''OLDOLDOLD'')) = None \<and>
   fileAt (fst (Download exampleUpdater linuxEnv ''orbit/linux/stable/orbit''
                  ''/opt/orbit/bin/orbit/linux/stable/orbit''
                  (oneFile ''/opt/orbit/staging/orbit'' ''OLDOLDOLD'')))
       ''/opt/orbit/bin/orbit/linux/stable/orbit'' = Some ''goodLDOLD'' \<and>
   client_Target (client exampleUpdater) ''orbit/linux/stable/orbit''
     = Inr \<lparr>Length = 4, Hashes = [(''sha256'', ''sha256:good'')]\<rparr> \<and>
   CheckFileHash linuxEnv \<lparr>Length = 4, Hashes = [(''sha256'', ''sha256:good'')]\<rparr>
       ''/opt/orbit/bin/orbit/linux/stable/orbit''
       (fst (Download exampleUpdater linuxEnv ''orbit/linux/stable/orbit''
               ''/opt/orbit/bin/orbit/linux/stable/orbit''
               (oneFile ''/opt/orbit/staging/orbit'' ''OLDOLDOLD'')))
     = Some (Errorf ''hash mismatch'')"
  by code_simp

text \<open>
  C6. On Windows the file at the destination is renamed to \<^verbatim>\<open>.old\<close> before the staging
  file is renamed to the destination (\<open>Download_windows_publish\<close> above, for a staging path
  that was free). With stale bytes at the staging path the old bytes are at \<^verbatim>\<open>.old\<close>, but
  what is at the destination after the successful download is not the verified bytes
  \<^verbatim>\<open>good\<close>.
\<close>

theorem Download_windows_stale_bytes:
  "client_Download (client windowsUpdater) ''orbit/windows/stable/orbit.exe'' = (''good'', None) \<and>
   snd (Download windowsUpdater windowsEnv ''orbit/windows/stable/orbit.exe''
          ''C:/orbit/bin/orbit/windows/stable/orbit.exe''
          (withFile (tmpPath windowsUpdater windowsEnv ''C:/orbit/bin/orbit/windows/stable/orbit.exe'')
             ''OLDOLDOLD'' (oneFile ''C:/orbit/bin/orbit/windows/stable/orbit.exe'' ''v1''))) = None \<and>
   fileAt (fst (Download windowsUpdater windowsEnv ''orbit/windows/stable/orbit.exe''
          ''C:/orbit/bin/orbit/windows/stable/orbit.exe''
          (withFile (tmpPath windowsUpdater windowsEnv ''C:/orbit/bin/orbit/windows/stable/orbit.exe'')
             ''OLDOLDOLD'' (oneFile ''C:/orbit/bin/orbit/windows/stable/orbit.exe'' ''v1''))))
       ''C:/orbit/bin/orbit/windows/stable/orbit.exe.old'' = Some ''v1'' \<and>
   fileAt (fst (Download windowsUpdater windowsEnv ''orbit/windows/stable/orbit.exe''
          ''C:/orbit/bin/orbit/windows/stable/orbit.exe''
          (withFile (tmpPath windowsUpdater windowsEnv ''C:/orbit/bin/orbit/windows/stable/orbit.exe'')
             ''OLDOLDOLD'' (oneFile ''C:/orbit/bin/orbit/windows/stable/orbit.exe'' ''v1''))))
       ''C:/orbit/bin/orbit/windows/stable/orbit.exe'' = Some ''goodLDOLD''"
  by code_simp

end
